theory Spec2Isabelle
  imports Main "HOL-Library.AList"
begin

section \<open>JavaScript objects used as dictionaries\<close>

text \<open>
  The code keeps several dictionaries in plain objects created by \<open>{}\<close>. Such an object
  has its own properties, in insertion order, and inherits the properties of
  \<open>Object.prototype\<close>, whose names are listed here. Reading \<open>obj[key]\<close> gives the own
  value, or an inherited function or object (truthy, and not \<open>undefined\<close>), or
  \<open>undefined\<close>.
\<close>

definition Object_prototype_keys :: "string list" where
  "Object_prototype_keys =
     [''constructor'', ''__proto__'', ''hasOwnProperty'', ''isPrototypeOf'',
      ''propertyIsEnumerable'', ''toLocaleString'', ''toString'', ''valueOf'',
      ''__defineGetter__'', ''__defineSetter__'', ''__lookupGetter__'', ''__lookupSetter__'']"

datatype 'a property = Own 'a | Inherited | Undefined

definition obj_get :: "(string \<times> 'a) list \<Rightarrow> string \<Rightarrow> 'a property" where
  "obj_get obj key =
     (case map_of obj key of
        Some v \<Rightarrow> Own v
      | None \<Rightarrow> if key \<in> set Object_prototype_keys then Inherited else Undefined)"

text \<open>
  The assignment \<open>obj[key] = value\<close> of an object value: it replaces an own property in
  place or appends a new one, except for the key \<open>__proto__\<close> when that is not an own
  property, where it sets the prototype and adds no own property. The dictionaries
  below are never read after such an assignment.
\<close>

definition obj_set :: "string \<Rightarrow> 'a \<Rightarrow> (string \<times> 'a) list \<Rightarrow> (string \<times> 'a) list" where
  "obj_set key v obj =
     (if key = ''__proto__'' \<and> map_of obj key = None then obj else AList.update key v obj)"

section \<open>GraphQL schema comparison (SchemaMigrationService)\<close>

text \<open>
  A GraphQL \<open>TypeNode\<close> is a named type, or a list or non-null wrapper around another
  type node. The \<open>kind\<close> property of a node is the name of its constructor.
\<close>

datatype TypeNode = NamedType string | ListType TypeNode | NonNullType TypeNode

fun node_kind :: "TypeNode \<Rightarrow> string" where
  "node_kind (NamedType n) = ''NamedType''"
| "node_kind (ListType t) = ''ListType''"
| "node_kind (NonNullType t) = ''NonNullType''"

text \<open>
  The \<open>while\<close> loop of \<open>extractTypeDetails\<close>: as long as the current node is a
  \<open>NonNullType\<close> or a \<open>ListType\<close>, step to the wrapped node.
\<close>

fun unwrapTypeNode :: "TypeNode \<Rightarrow> TypeNode" where
  "unwrapTypeNode (NonNullType t) = unwrapTypeNode t"
| "unwrapTypeNode (ListType t) = unwrapTypeNode t"
| "unwrapTypeNode (NamedType n) = NamedType n"

record TypeDetails =
  type :: string
  kind :: string

definition extractTypeDetails :: "TypeNode \<Rightarrow> TypeDetails" where
  "extractTypeDetails typeNode =
     (let currentTypeNode = unwrapTypeNode typeNode;
          name = (case currentTypeNode of NamedType n \<Rightarrow> n | _ \<Rightarrow> [])
      in \<lparr>type = node_kind currentTypeNode, kind = name\<rparr>)"

text \<open>A field definition of an object type: \<open>field.name.value\<close> and \<open>field.type\<close>.\<close>

record FieldDefinition =
  field_name :: string
  field_type :: TypeNode

record FromTo =
  from_value :: string
  to_value :: string

record FieldChange =
  type_change :: FromTo
  kind_change :: FromTo

text \<open>
  The \<open>reduce\<close> over \<open>newFields\<close> that builds \<open>modifiedFields\<close>. The accumulator is a
  JavaScript object: its own properties are the reported fields.
  Both sides of the disjunction compare \<open>kind\<close>, as in the source.
\<close>

definition modifiedFields_step ::
  "FieldDefinition list \<Rightarrow> FieldDefinition \<Rightarrow> (string \<times> FieldChange) list
   \<Rightarrow> (string \<times> FieldChange) list" where
  "modifiedFields_step oldFields newField acc =
     (let oldField = find (\<lambda>oldField. field_name oldField = field_name newField) oldFields;
          newFieldDetails = extractTypeDetails (field_type newField)
      in case oldField of
           None \<Rightarrow> acc
         | Some old \<Rightarrow>
             (let oldFieldDetails = extractTypeDetails (field_type old)
              in if kind oldFieldDetails \<noteq> kind newFieldDetails
                    \<or> kind oldFieldDetails \<noteq> kind newFieldDetails
                 then obj_set (field_name newField)
                        \<lparr>type_change = \<lparr>from_value = type oldFieldDetails, to_value = type newFieldDetails\<rparr>,
                         kind_change = \<lparr>from_value = kind oldFieldDetails, to_value = kind newFieldDetails\<rparr>\<rparr>
                        acc
                 else acc))"

definition modifiedFields ::
  "FieldDefinition list \<Rightarrow> FieldDefinition list \<Rightarrow> (string \<times> FieldChange) list" where
  "modifiedFields oldFields newFields = fold (modifiedFields_step oldFields) newFields []"

record EntityChanges =
  addedFields :: "string list"
  removedFields :: "string list"
  modifiedFields_of :: "(string \<times> FieldChange) list"

record SchemaChanges =
  addedEntities :: "string list"
  removedEntities :: "string list"
  modifiedEntities :: "(string \<times> EntityChanges) list"

text \<open>
  A top-level definition of a parsed schema document. Only object type definitions
  matter to \<open>compareSchema\<close>; every other kind of definition is \<open>OtherDefinition\<close>.
\<close>

datatype DefinitionNode =
  ObjectTypeDefinition string "FieldDefinition list"
| OtherDefinition

fun is_object_named :: "string \<Rightarrow> DefinitionNode \<Rightarrow> bool" where
  "is_object_named typeName (ObjectTypeDefinition n fs) = (n = typeName)"
| "is_object_named typeName OtherDefinition = False"

text \<open>The visitor of the new schema: one call per object type definition.\<close>

fun visit_next :: "DefinitionNode list \<Rightarrow> DefinitionNode \<Rightarrow> SchemaChanges \<Rightarrow> SchemaChanges" where
  "visit_next currentDefs OtherDefinition changes = changes"
| "visit_next currentDefs (ObjectTypeDefinition typeName newFields) changes =
     (case find (is_object_named typeName) currentDefs of
        None \<Rightarrow> changes\<lparr>addedEntities := addedEntities changes @ [typeName]\<rparr>
      | Some OtherDefinition \<Rightarrow> changes
      | Some (ObjectTypeDefinition n oldFields) \<Rightarrow>
          (let added = filter (\<lambda>field. \<not> list_ex (\<lambda>oldField. field_name oldField = field_name field) oldFields) newFields;
               removed = filter (\<lambda>field. \<not> list_ex (\<lambda>newField. field_name newField = field_name field) newFields) oldFields;
               modified = modifiedFields oldFields newFields
           in if added \<noteq> [] \<or> removed \<noteq> [] \<or> modified \<noteq> []
              then changes\<lparr>modifiedEntities :=
                     obj_set typeName
                       \<lparr>addedFields = map field_name added,
                        removedFields = map field_name removed,
                        modifiedFields_of = modified\<rparr>
                       (modifiedEntities changes)\<rparr>
              else changes))"

text \<open>The visitor of the current schema: types that the new schema no longer has.\<close>

fun visit_current :: "DefinitionNode list \<Rightarrow> DefinitionNode \<Rightarrow> SchemaChanges \<Rightarrow> SchemaChanges" where
  "visit_current nextDefs OtherDefinition changes = changes"
| "visit_current nextDefs (ObjectTypeDefinition typeName fs) changes =
     (if list_ex (is_object_named typeName) nextDefs then changes
      else changes\<lparr>removedEntities := removedEntities changes @ [typeName]\<rparr>)"

definition compareSchema :: "DefinitionNode list \<Rightarrow> DefinitionNode list \<Rightarrow> SchemaChanges" where
  "compareSchema currentSchemaAST nextSchemaAST =
     fold (visit_current nextSchemaAST) currentSchemaAST
       (fold (visit_next currentSchemaAST) nextSchemaAST
          \<lparr>addedEntities = [], removedEntities = [], modifiedEntities = []\<rparr>)"

section \<open>Entity store cache (CachedModel)\<close>

subsection \<open>Values, entities, errors\<close>

text \<open>
  A field value of an entity: a string, a number, a boolean or an array of values.
  An entity is an object with a required textual \<open>id\<close> and further fields.
\<close>

datatype jsval = JStr string | JNum int | JBool bool | JArr "jsval list"

record entity =
  ent_id :: string
  attrs :: "(string \<times> jsval) list"

text \<open>Property access \<open>entity[field]\<close>; \<open>None\<close> is JavaScript's \<open>undefined\<close>.\<close>

definition entity_field :: "entity \<Rightarrow> string \<Rightarrow> jsval option" where
  "entity_field e f = (if f = ''id'' then Some (JStr (ent_id e)) else map_of (attrs e) f)"

text \<open>
  What the code can throw: the \<open>TypeError\<close> of reading a property of \<open>undefined\<close>,
  an \<open>Error\<close> with a message, and the rejection of a write below the last start height.
\<close>

datatype error = TypeError | Error string | NonMonotoneHeight

fun string_of_nat :: "nat \<Rightarrow> string" where
  "string_of_nat n =
     (if n < 10 then [char_of (48 + n)]
      else string_of_nat (n div 10) @ [char_of (48 + n mod 10)])"

definition string_of_int :: "int \<Rightarrow> string" where
  "string_of_int i = (if i < 0 then CHR ''-'' # string_of_nat (nat (- i)) else string_of_nat (nat i))"

fun join_comma :: "string list \<Rightarrow> string" where
  "join_comma [] = []"
| "join_comma [x] = x"
| "join_comma (x # y # ys) = x @ '','' @ join_comma (y # ys)"

text \<open>\<open>value.toString()\<close>.\<close>

fun toString :: "jsval \<Rightarrow> string" where
  "toString (JStr s) = s"
| "toString (JNum i) = string_of_int i"
| "toString (JBool b) = (if b then ''true'' else ''false'')"
| "toString (JArr vs) = join_comma (map toString vs)"

subsection \<open>Set-version model\<close>

record SetValue =
  data :: entity
  startHeight :: nat
  endHeight :: "nat option"

type_synonym SetValueModel = "SetValue list"

text \<open>
  Modelled from the spec: the class \<open>SetValueModel\<close> (imported from \<open>./types\<close>) is not
  among the sources. It is the ordered sequence of versions of one id; \<open>endHeight = None\<close>
  is the open version. \<open>getLatest\<close> is the latest (last) version, \<open>getFirst\<close> the first.
\<close>

definition getLatest :: "SetValueModel \<Rightarrow> SetValue option" where
  "getLatest vs = (if vs = [] then None else Some (last vs))"

definition getFirst :: "SetValueModel \<Rightarrow> SetValue option" where
  "getFirst vs = (case vs of [] \<Rightarrow> None | v # _ \<Rightarrow> Some v)"

definition getValues :: "SetValueModel \<Rightarrow> SetValue list" where
  "getValues vs = vs"

text \<open>
  Modelled from the spec: \<open>SetValueModel.set\<close>. It closes the currently open version at
  \<open>endHeight = h\<close> (if any) and appends a new open version; with \<open>h\<close> equal to the open
  version's start height it replaces that version's data in place; \<open>h\<close> strictly less
  than the last start height is a programmer error.
\<close>

definition SetValueModel_set :: "entity \<Rightarrow> nat \<Rightarrow> SetValueModel \<Rightarrow> error + SetValueModel" where
  "SetValueModel_set d h vs =
     (case getLatest vs of
        None \<Rightarrow> Inr [\<lparr>data = d, startHeight = h, endHeight = None\<rparr>]
      | Some latest \<Rightarrow>
          if h < startHeight latest then Inl NonMonotoneHeight
          else if endHeight latest = None then
            (if startHeight latest = h then Inr (butlast vs @ [latest\<lparr>data := d\<rparr>])
             else Inr (butlast vs @ [latest\<lparr>endHeight := Some h\<rparr>,
                                     \<lparr>data = d, startHeight = h, endHeight = None\<rparr>]))
          else Inr (vs @ [\<lparr>data = d, startHeight = h, endHeight = None\<rparr>]))"

text \<open>
  Modelled from the spec: \<open>SetValueModel.markAsRemoved\<close> closes the open version at \<open>h\<close>
  without opening a new one.
\<close>

definition markAsRemoved :: "nat \<Rightarrow> SetValueModel \<Rightarrow> SetValueModel" where
  "markAsRemoved h vs =
     (case getLatest vs of
        None \<Rightarrow> vs
      | Some latest \<Rightarrow>
          if endHeight latest = None then butlast vs @ [latest\<lparr>endHeight := Some h\<rparr>] else vs)"

text \<open>
  Modelled from the spec: \<open>SetValueModel.isMatchData\<close> is true iff the latest version's
  field equals the value; an unset field matches any model.
\<close>

definition isMatchData :: "string option \<Rightarrow> jsval option \<Rightarrow> SetValueModel \<Rightarrow> bool" where
  "isMatchData field v vs =
     (case field of
        None \<Rightarrow> True
      | Some f \<Rightarrow> (case getLatest vs of
                    None \<Rightarrow> False
                  | Some latest \<Rightarrow> entity_field (data latest) f = v))"

subsection \<open>Bounded recency map\<close>

text \<open>
  Modelled from the spec: the class \<open>GetData\<close> (imported from \<open>./types\<close>, built on an LRU
  cache library) is not among the sources. It is a capacity-bounded map \<open>id \<rightarrow> E | NULL\<close>
  with recency update on access, evicting the least recently used entry on overflow.
  The list holds the most recently used entry first; a stored \<open>None\<close> is the negative
  cache marker. The capacity is \<open>getCacheOptions.max\<close>. Expiry by age (\<open>ttl\<close>) needs a
  clock and is left out.
\<close>

type_synonym GetData = "(string \<times> entity option) list"

definition getCacheOptions_max :: nat where
  "getCacheOptions_max = 500"

definition lru_has :: "GetData \<Rightarrow> string \<Rightarrow> bool" where
  "lru_has c k = (map_of c k \<noteq> None)"

definition lru_delete :: "GetData \<Rightarrow> string \<Rightarrow> GetData" where
  "lru_delete c k = filter (\<lambda>p. fst p \<noteq> k) c"

definition lru_set :: "GetData \<Rightarrow> string \<Rightarrow> entity option \<Rightarrow> GetData" where
  "lru_set c k v = take getCacheOptions_max ((k, v) # lru_delete c k)"

definition lru_get :: "GetData \<Rightarrow> string \<Rightarrow> entity option \<times> GetData" where
  "lru_get c k =
     (case map_of c k of
        None \<Rightarrow> (None, c)
      | Some v \<Rightarrow> (v, (k, v) # lru_delete c k))"

subsection \<open>The cached model\<close>

record RemoveValue =
  removedAtBlock :: nat

text \<open>
  The state of a \<open>CachedModel\<close>. \<open>setCache\<close> and \<open>removeCache\<close> are JavaScript objects
  used as dictionaries, given by their own properties.
\<close>

record CachedModel =
  getCache :: GetData
  setCache :: "(string \<times> SetValueModel) list"
  removeCache :: "(string \<times> RemoveValue) list"
  flushableRecordCounter :: nat

definition new_CachedModel :: CachedModel where
  "new_CachedModel = \<lparr>getCache = [], setCache = [], removeCache = [], flushableRecordCounter = 0\<rparr>"

text \<open>
  The database behind the model, as the two queries the read path issues:
  \<open>findOne({where: {id}})\<close> and \<open>findOne({where: {[field]: value, id: {notIn: ids}}})\<close>.
\<close>

record Database =
  findOne_id :: "string \<Rightarrow> entity option"
  findOne_where :: "string \<Rightarrow> jsval \<Rightarrow> string list \<Rightarrow> entity option"

text \<open>lodash \<open>uniq\<close>: the first occurrence of every element, in order.\<close>

definition uniq :: "'a list \<Rightarrow> 'a list" where
  "uniq xs = fold (\<lambda>x acc. if x \<in> set acc then acc else acc @ [x]) xs []"

definition allCachedIds :: "CachedModel \<Rightarrow> string list" where
  "allCachedIds s = uniq (map fst (getCache s) @ map fst (setCache s) @ map fst (removeCache s))"

text \<open>
  \<open>get(id)\<close>. The result is the returned record (\<open>None\<close> for \<open>undefined\<close>) or the error
  thrown, with the state left behind. \<open>this.removeCache[id]\<close> is truthy for an own and
  for an inherited property; calling \<open>getLatest\<close> on an inherited property throws.
\<close>

definition CachedModel_get ::
  "Database \<Rightarrow> string \<Rightarrow> CachedModel \<Rightarrow> (error + entity option) \<times> CachedModel" where
  "CachedModel_get db i s =
     (if obj_get (removeCache s) i \<noteq> Undefined then (Inr None, s)
      else if \<not> lru_has (getCache s) i then
        (case obj_get (setCache s) i of
           Undefined \<Rightarrow>
             (let record = findOne_id db i
              in (Inr record, s\<lparr>getCache := lru_set (getCache s) i record\<rparr>))
         | Inherited \<Rightarrow> (Inl TypeError, s)
         | Own m \<Rightarrow>
             (case getLatest m of
                None \<Rightarrow> (Inl TypeError, s)
              | Some latest \<Rightarrow> (Inr (Some (data latest)), s)))
      else (let (v, c) = lru_get (getCache s) i in (Inr v, s\<lparr>getCache := c\<rparr>)))"

text \<open>
  The first loop of \<open>getFromCache\<close>, over the entries of \<open>setCache\<close>: the latest data
  of every matching model. Reading \<open>.data\<close> of an absent latest version throws.
\<close>

fun matchSetCache ::
  "string option \<Rightarrow> jsval option \<Rightarrow> (string \<times> SetValueModel) list \<Rightarrow> error + entity list" where
  "matchSetCache field v [] = Inr []"
| "matchSetCache field v ((k, model) # rest) =
     (if isMatchData field v model then
        (case getLatest model of
           None \<Rightarrow> Inl TypeError
         | Some latest \<Rightarrow>
             (case matchSetCache field v rest of
                Inl e \<Rightarrow> Inl e
              | Inr ds \<Rightarrow> Inr (data latest # ds)))
      else matchSetCache field v rest)"

text \<open>
  lodash \<open>includes(value, x)\<close> on an array \<open>value\<close> compares by identity, so only
  primitive values are found.
\<close>

definition includes_val :: "jsval list \<Rightarrow> jsval option \<Rightarrow> bool" where
  "includes_val vs x =
     (case x of
        None \<Rightarrow> False
      | Some (JArr a) \<Rightarrow> False
      | Some p \<Rightarrow> p \<in> set vs)"

text \<open>
  The condition of the second loop for one record of \<open>getCache\<close>;
  \<open>getValue[undefined]\<close> is \<open>undefined\<close>.
\<close>

definition matchGetValue :: "string option \<Rightarrow> jsval option \<Rightarrow> entity \<Rightarrow> bool" where
  "matchGetValue field v getValue =
     (if field = None \<and> v = None then True
      else (let fv = (case field of None \<Rightarrow> None | Some f \<Rightarrow> entity_field getValue f)
            in (case v of Some (JArr vs) \<Rightarrow> includes_val vs fv | _ \<Rightarrow> False) \<or> fv = v))"

text \<open>
  The second loop, over a snapshot of the entries of \<open>getCache\<close>. Modelled from the spec:
  the matches from \<open>getCache\<close> exclude NULL, so \<open>forEach\<close> passes over the negative
  cache markers. A matching entry is read with \<open>getCache.get\<close>, which makes it the most
  recently used.
\<close>

fun matchGetCache ::
  "string option \<Rightarrow> jsval option \<Rightarrow> string list \<Rightarrow> (string \<times> entity option) list \<Rightarrow>
   entity list \<times> GetData \<Rightarrow> entity list \<times> GetData" where
  "matchGetCache field v unifiedIds [] (joined, c) = (joined, c)"
| "matchGetCache field v unifiedIds ((key, None) # rest) (joined, c) =
     matchGetCache field v unifiedIds rest (joined, c)"
| "matchGetCache field v unifiedIds ((key, Some getValue) # rest) (joined, c) =
     (if key \<notin> set unifiedIds \<and> matchGetValue field v getValue
      then matchGetCache field v unifiedIds rest (joined @ [getValue], snd (lru_get c key))
      else matchGetCache field v unifiedIds rest (joined, c))"

definition getFromCache ::
  "string option \<Rightarrow> jsval option \<Rightarrow> bool \<Rightarrow> CachedModel \<Rightarrow>
   (error + entity list) \<times> CachedModel" where
  "getFromCache field v findOne s =
     (case matchSetCache field v (setCache s) of
        Inl e \<Rightarrow> (Inl e, s)
      | Inr ds \<Rightarrow>
          if findOne \<and> ds \<noteq> [] then (Inr ds, s)
          else (let (joined, c) = matchGetCache field v (map ent_id ds) (getCache s)
                                     (ds, getCache s)
                in (Inr joined, s\<lparr>getCache := c\<rparr>)))"

text \<open>
  \<open>getOneByField(field, value)\<close>. When the database has no row, \<open>record\<close> is
  \<open>undefined\<close> and \<open>record.id\<close> throws a \<open>TypeError\<close>.
\<close>

definition getOneByField ::
  "Database \<Rightarrow> string \<Rightarrow> jsval \<Rightarrow> CachedModel \<Rightarrow> (error + entity option) \<times> CachedModel" where
  "getOneByField db field v s =
     (if field = ''id'' then CachedModel_get db (toString v) s
      else case getFromCache (Some field) (Some v) True s of
             (Inl e, s') \<Rightarrow> (Inl e, s')
           | (Inr (oneFromCached # rest), s') \<Rightarrow> (Inr (Some oneFromCached), s')
           | (Inr [], s') \<Rightarrow>
               (case findOne_where db field v (allCachedIds s') of
                  None \<Rightarrow> (Inl TypeError, s')
                | Some record \<Rightarrow>
                    (Inr (Some record),
                     s'\<lparr>getCache := lru_set (getCache s') (ent_id record) (Some record)\<rparr>)))"

text \<open>
  \<open>set(id, data, blockHeight)\<close>: the error thrown (if any) and the state left behind.
  An inherited property is not \<open>undefined\<close>, so no model is created for it, and it has
  no method \<open>set\<close>: the call throws. When \<open>SetValueModel.set\<close> throws, the entry of
  \<open>setCache\<close> is already in place and nothing else has changed.
\<close>

definition CachedModel_set ::
  "string \<Rightarrow> entity \<Rightarrow> nat \<Rightarrow> CachedModel \<Rightarrow> error option \<times> CachedModel" where
  "CachedModel_set i d blockHeight s =
     (let s1 = (if obj_get (setCache s) i = Undefined
                then s\<lparr>setCache := obj_set i [] (setCache s)\<rparr> else s)
      in case obj_get (setCache s1) i of
           Own m \<Rightarrow>
             (case SetValueModel_set d blockHeight m of
                Inl e \<Rightarrow> (Some e, s1)
              | Inr m' \<Rightarrow>
                  (None, s1\<lparr>setCache := obj_set i m' (setCache s1),
                             getCache := lru_set (getCache s1) i (Some d),
                             flushableRecordCounter := flushableRecordCounter s1 + 1\<rparr>))
         | _ \<Rightarrow> (Some TypeError, s1))"

text \<open>The loop \<open>for (const entity of data) this.set(entity.id, entity, blockHeight)\<close>.\<close>

fun bulkCreate :: "entity list \<Rightarrow> nat \<Rightarrow> CachedModel \<Rightarrow> error option \<times> CachedModel" where
  "bulkCreate [] blockHeight s = (None, s)"
| "bulkCreate (e # es) blockHeight s =
     (case CachedModel_set (ent_id e) e blockHeight s of
        (Some err, s') \<Rightarrow> (Some err, s')
      | (None, s') \<Rightarrow> bulkCreate es blockHeight s')"

text \<open>
  \<open>bulkUpdate(data, blockHeight, fields?)\<close>: the same loop, then the check of \<open>fields\<close>.
  Any array, also the empty one, is truthy.
\<close>

definition bulkUpdate ::
  "entity list \<Rightarrow> nat \<Rightarrow> string list option \<Rightarrow> CachedModel \<Rightarrow> error option \<times> CachedModel" where
  "bulkUpdate ds blockHeight fields_arg s =
     (case bulkCreate ds blockHeight s of
        (Some err, s') \<Rightarrow> (Some err, s')
      | (None, s') \<Rightarrow>
          (case fields_arg of
             Some fs \<Rightarrow> (Some (Error ''Currently not support update by fields''), s')
           | None \<Rightarrow> (None, s')))"

text \<open>
  \<open>remove(id, blockHeight)\<close>. The test \<open>this.removeCache[id] === undefined\<close> fails for
  an own and for an inherited property; past it the id is no inherited name, so
  \<open>this.setCache[id]\<close> is an own model or \<open>undefined\<close>.
\<close>

definition CachedModel_remove :: "string \<Rightarrow> nat \<Rightarrow> CachedModel \<Rightarrow> CachedModel" where
  "CachedModel_remove i blockHeight s =
     (if obj_get (removeCache s) i = Undefined then
        (let s1 = s\<lparr>removeCache := obj_set i \<lparr>removedAtBlock = blockHeight\<rparr> (removeCache s),
                    flushableRecordCounter := flushableRecordCounter s + 1\<rparr>;
             (v, c) = lru_get (getCache s1) i;
             s2 = s1\<lparr>getCache := (if v \<noteq> None then lru_delete c i else c)\<rparr>
         in case obj_get (setCache s2) i of
              Own m \<Rightarrow> s2\<lparr>setCache := obj_set i (markAsRemoved blockHeight m) (setCache s2)\<rparr>
            | _ \<Rightarrow> s2)
      else s)"

definition CachedModel_isFlushable :: "CachedModel \<Rightarrow> bool" where
  "CachedModel_isFlushable s = (setCache s \<noteq> [])"

text \<open>
  Every model that \<open>set\<close> puts into \<open>setCache\<close> has a version, so \<open>getLatest\<close> of an
  entry of \<open>setCache\<close> is defined. This is the invariant of the states the operations
  build.
\<close>

definition setCache_inhabited :: "CachedModel \<Rightarrow> bool" where
  "setCache_inhabited s = list_all (\<lambda>p. snd p \<noteq> []) (setCache s)"

section \<open>Metadata cache (CacheMetadataModel)\<close>

text \<open>
  The keys of \<open>incrementKeys\<close>, which are the only keys \<open>setIncrement\<close> accepts. Their
  values have the type \<open>number\<close>; the model holds counters that are whole numbers.
\<close>

datatype IncrementKey = processedBlockCount | schemaMigrationCount

definition incrementKeys :: "IncrementKey list" where
  "incrementKeys = [processedBlockCount, schemaMigrationCount]"

text \<open>
  Modelled from the spec: the interface \<open>MetadataKeys\<close> (imported from \<open>../entities\<close>) is
  not among the sources. A \<open>Partial<MetadataKeys>\<close> object holds the number-valued
  increment keys and the remaining, last-writer-wins keys; the model keeps the two
  apart so that each value has the type its key gives it. The metadata table of the
  database has the same shape: one row per key.
\<close>

record MetadataKeys =
  counters :: "(IncrementKey \<times> int) list"
  others :: "(string \<times> jsval) list"

definition no_MetadataKeys :: MetadataKeys where
  "no_MetadataKeys = \<lparr>counters = [], others = []\<rparr>"

text \<open>A \<open>Metadata\<close> entry: a key with a value of the key's type.\<close>

datatype Metadata = CounterEntry IncrementKey int | OtherEntry string jsval

fun put_Metadata :: "Metadata \<Rightarrow> MetadataKeys \<Rightarrow> MetadataKeys" where
  "put_Metadata (CounterEntry k n) c = c\<lparr>counters := AList.update k n (counters c)\<rparr>"
| "put_Metadata (OtherEntry k v) c = c\<lparr>others := obj_set k v (others c)\<rparr>"

fun has_Metadata :: "Metadata \<Rightarrow> MetadataKeys \<Rightarrow> bool" where
  "has_Metadata (CounterEntry k n) c = (map_of (counters c) k \<noteq> None)"
| "has_Metadata (OtherEntry k v) c = (obj_get (others c) k \<noteq> Undefined)"

record CacheMetadataModel =
  md_setCache :: MetadataKeys
  md_getCache :: MetadataKeys
  md_flushableRecordCounter :: nat

definition new_CacheMetadataModel :: CacheMetadataModel where
  "new_CacheMetadataModel =
     \<lparr>md_setCache = no_MetadataKeys, md_getCache = no_MetadataKeys, md_flushableRecordCounter = 0\<rparr>"

definition CacheMetadataModel_set :: "Metadata \<Rightarrow> CacheMetadataModel \<Rightarrow> CacheMetadataModel" where
  "CacheMetadataModel_set m s =
     (let s1 = (if \<not> has_Metadata m (md_setCache s)
                then s\<lparr>md_flushableRecordCounter := md_flushableRecordCounter s + 1\<rparr> else s)
      in s1\<lparr>md_setCache := put_Metadata m (md_setCache s1),
             md_getCache := put_Metadata m (md_getCache s1)\<rparr>)"

definition setBulk :: "Metadata list \<Rightarrow> CacheMetadataModel \<Rightarrow> CacheMetadataModel" where
  "setBulk metadata s = fold CacheMetadataModel_set metadata s"

text \<open>
  JavaScript numbers are doubles. The sum of two whole numbers is exact when the
  operands and the sum are safe integers (of magnitude at most \<open>2^53 - 1\<close>); outside
  that range the sum may be rounded, and the model gives no value (\<open>None\<close>).
\<close>

definition safe_integer :: "int \<Rightarrow> bool" where
  "safe_integer n = (\<bar>n\<bar> \<le> 9007199254740991)"

definition js_add :: "int \<Rightarrow> int \<Rightarrow> int option" where
  "js_add a b =
     (if safe_integer a \<and> safe_integer b \<and> safe_integer (a + b) then Some (a + b) else None)"

text \<open>
  \<open>this.setCache[key] = (this.setCache[key] ?? 0) + amount\<close>. The result is \<open>None\<close> where
  the model gives no value for the sum.
\<close>

definition setIncrement ::
  "IncrementKey \<Rightarrow> int \<Rightarrow> CacheMetadataModel \<Rightarrow> CacheMetadataModel option" where
  "setIncrement key amount s =
     (case js_add (case map_of (counters (md_setCache s)) key of None \<Rightarrow> 0 | Some n \<Rightarrow> n) amount of
        None \<Rightarrow> None
      | Some n \<Rightarrow>
          Some (s\<lparr>md_setCache := (md_setCache s)\<lparr>counters :=
                   AList.update key n (counters (md_setCache s))\<rparr>\<rparr>))"

text \<open>The ranges of the SQL types \<open>int\<close> and \<open>bigint\<close>.\<close>

definition in_int4 :: "int \<Rightarrow> bool" where
  "in_int4 n = (- 2147483648 \<le> n \<and> n \<le> 2147483647)"

definition in_int8 :: "int \<Rightarrow> bool" where
  "in_int8 n = (- 9223372036854775808 \<le> n \<and> n \<le> 9223372036854775807)"

datatype sql_error = IntegerOutOfRange | BigintOutOfRange

text \<open>
  The statement of \<open>incrementJsonbCount\<close>:
  \<open>UPDATE table SET value = (COALESCE(value->0)::int + amount)::text::jsonb WHERE key = 'key'\<close>.
  It changes the row of the key when there is one and no row otherwise. The stored
  value is cast to \<open>int\<close>, which fails outside that type's range. The amount is written
  into the statement as a literal: a literal of magnitude within \<open>int\<close> makes the sum an
  \<open>int\<close>, which fails on overflow; a larger one within \<open>bigint\<close> makes it a
  \<open>bigint\<close>; a still larger one makes it a \<open>numeric\<close>, which has no bound.
\<close>

definition incrementJsonbCount ::
  "IncrementKey \<Rightarrow> int \<Rightarrow> MetadataKeys \<Rightarrow> sql_error + MetadataKeys" where
  "incrementJsonbCount key amount table =
     (case map_of (counters table) key of
        None \<Rightarrow> Inr table
      | Some v \<Rightarrow>
          if \<not> in_int4 v then Inl IntegerOutOfRange
          else if \<bar>amount\<bar> \<le> 2147483647 \<and> \<not> in_int4 (v + amount) then Inl IntegerOutOfRange
          else if 2147483647 < \<bar>amount\<bar> \<and> \<bar>amount\<bar> \<le> 9223372036854775807
                  \<and> \<not> in_int8 (v + amount) then Inl BigintOutOfRange
          else Inr (table\<lparr>counters := AList.update key (v + amount) (counters table)\<rparr>))"

text \<open>\<open>bulkCreate(ops, {updateOnDuplicate: ['key', 'value']})\<close>: an upsert of every entry.\<close>

definition bulkCreate_metadata :: "(string \<times> jsval) list \<Rightarrow> MetadataKeys \<Rightarrow> MetadataKeys" where
  "bulkCreate_metadata ops table =
     table\<lparr>others := fold (\<lambda>(k, v). AList.update k v) ops (others table)\<rparr>"

definition CacheMetadataModel_isFlushable :: "CacheMetadataModel \<Rightarrow> bool" where
  "CacheMetadataModel_isFlushable s =
     (counters (md_setCache s) \<noteq> [] \<or> others (md_setCache s) \<noteq> [])"

definition CacheMetadataModel_clear :: "CacheMetadataModel \<Rightarrow> CacheMetadataModel" where
  "CacheMetadataModel_clear s = s\<lparr>md_setCache := no_MetadataKeys, md_flushableRecordCounter := 0\<rparr>"

text \<open>
  One increment key of the flush: \<open>this.setCache[key] && this.incrementJsonbCount(...)\<close>.
  A pending value that is absent or \<open>0\<close> is falsy and issues no statement.
\<close>

definition flush_increment ::
  "MetadataKeys \<Rightarrow> IncrementKey \<Rightarrow> sql_error + MetadataKeys \<Rightarrow> sql_error + MetadataKeys" where
  "flush_increment pending key r =
     (case r of
        Inl e \<Rightarrow> Inl e
      | Inr table \<Rightarrow>
          (case map_of (counters pending) key of
             None \<Rightarrow> Inr table
           | Some amount \<Rightarrow>
               if amount = 0 then Inr table else incrementJsonbCount key amount table))"

text \<open>
  The server-side add that the flush issues for a key, if it issues one, stays within
  the ranges where the model is exact and the statement succeeds.
\<close>

definition increment_in_range :: "MetadataKeys \<Rightarrow> IncrementKey \<Rightarrow> MetadataKeys \<Rightarrow> bool" where
  "increment_in_range pending key table =
     (case (map_of (counters pending) key, map_of (counters table) key) of
        (Some amount, Some v) \<Rightarrow> safe_integer amount \<and> in_int4 v \<and> in_int4 (v + amount)
      | _ \<Rightarrow> True)"

text \<open>
  \<open>flush(tx)\<close>: the entries of \<open>setCache\<close> outside \<open>incrementKeys\<close> are upserted, every
  increment key with a truthy pending value gets its server-side add, then the pending
  writes are cleared. The statements address different rows, so the order in which the
  database runs them does not matter. When a statement fails the awaited promise
  rejects: \<open>clear\<close> is not reached and the transaction does not commit, so the result
  is the error with the model and the table as they were. Otherwise it is the model and
  the table afterwards.
\<close>

definition CacheMetadataModel_flush ::
  "CacheMetadataModel \<Rightarrow> MetadataKeys \<Rightarrow> sql_error option \<times> CacheMetadataModel \<times> MetadataKeys" where
  "CacheMetadataModel_flush s table =
     (let ops = others (md_setCache s);
          table1 = bulkCreate_metadata ops table
      in case fold (flush_increment (md_setCache s)) incrementKeys (Inr table1) of
           Inl e \<Rightarrow> (Some e, s, table)
         | Inr table2 \<Rightarrow> (None, CacheMetadataModel_clear s, table2))"

section \<open>Serial block dispatcher (BlockDispatcher)\<close>

subsection \<open>The two queues\<close>

text \<open>
  Modelled from the spec: the class \<open>Queue\<close> (imported from \<open>../../utils\<close>) is not among
  the sources. It is a FIFO of fixed capacity: \<open>putMany\<close> admits items up to the capacity
  and admitting more is an error, \<open>takeMany n\<close> returns up to \<open>n\<close> items without waiting,
  \<open>peek\<close> returns the head without removing it (\<open>undefined\<close> when there is none),
  \<open>flush\<close> empties the queue.
\<close>

record 'a Queue =
  items :: "'a list"
  capacity :: nat

definition new_Queue :: "nat \<Rightarrow> 'a Queue" where
  "new_Queue n = \<lparr>items = [], capacity = n\<rparr>"

definition Queue_size :: "'a Queue \<Rightarrow> nat" where
  "Queue_size q = length (items q)"

definition Queue_freeSpace :: "'a Queue \<Rightarrow> nat" where
  "Queue_freeSpace q = capacity q - Queue_size q"

definition Queue_putMany :: "'a list \<Rightarrow> 'a Queue \<Rightarrow> error + 'a Queue" where
  "Queue_putMany xs q =
     (if Queue_freeSpace q < length xs then Inl (Error ''Queue exceeds max size'')
      else Inr (q\<lparr>items := items q @ xs\<rparr>))"

definition Queue_takeMany :: "nat \<Rightarrow> 'a Queue \<Rightarrow> 'a list \<times> 'a Queue" where
  "Queue_takeMany n q = (take n (items q), q\<lparr>items := drop n (items q)\<rparr>)"

definition Queue_peek :: "'a Queue \<Rightarrow> 'a option" where
  "Queue_peek q = (case items q of [] \<Rightarrow> None | x # _ \<Rightarrow> Some x)"

definition Queue_flush :: "'a Queue \<Rightarrow> 'a Queue" where
  "Queue_flush q = q\<lparr>items := []\<rparr>"

text \<open>
  Modelled from the spec: the class \<open>AutoQueue\<close> (imported from \<open>../../utils\<close>) is not
  among the sources. It runs the submitted tasks in submission order, one at a time,
  with a bounded backlog. \<open>flush\<close> discards the queued tasks that have not started;
  \<open>abort\<close> discards them too, starts no further task and rejects every later \<open>put\<close>.
  A task is identified by the height of the block it indexes.
\<close>

record AutoQueue =
  backlog :: "nat Queue"
  aborted :: bool

definition new_AutoQueue :: "nat \<Rightarrow> AutoQueue" where
  "new_AutoQueue n = \<lparr>backlog = new_Queue n, aborted = False\<rparr>"

definition AutoQueue_size :: "AutoQueue \<Rightarrow> nat" where
  "AutoQueue_size a = Queue_size (backlog a)"

definition AutoQueue_freeSpace :: "AutoQueue \<Rightarrow> nat" where
  "AutoQueue_freeSpace a = Queue_freeSpace (backlog a)"

definition AutoQueue_putMany :: "nat list \<Rightarrow> AutoQueue \<Rightarrow> error + AutoQueue" where
  "AutoQueue_putMany tasks a =
     (if aborted a then Inl (Error ''Queue has been aborted'')
      else case Queue_putMany tasks (backlog a) of
             Inl e \<Rightarrow> Inl e
           | Inr q \<Rightarrow> Inr (a\<lparr>backlog := q\<rparr>))"

definition AutoQueue_flush :: "AutoQueue \<Rightarrow> AutoQueue" where
  "AutoQueue_flush a = a\<lparr>backlog := Queue_flush (backlog a)\<rparr>"

definition AutoQueue_abort :: "AutoQueue \<Rightarrow> AutoQueue" where
  "AutoQueue_abort a = a\<lparr>backlog := Queue_flush (backlog a), aborted := True\<rparr>"

subsection \<open>State of the dispatcher\<close>

text \<open>
  Where the loop of \<open>fetchBlocksFromQueue\<close> is suspended: nowhere, at
  \<open>await this.fetchBlocksBatches(blockNums)\<close> (with the loop's local variables
  \<open>blockNums\<close> and \<open>bufferedHeight\<close>), or at \<open>await delay(1)\<close>.
\<close>

datatype FetchLoop = NotRunning | AwaitFetch "nat list" "nat option" | AwaitDelay

text \<open>
  What the dispatcher does to its collaborators, in order: the lines it logs, its calls
  of \<open>fetchBlocksBatches\<close> and \<open>indexBlock\<close>, the queue-size event and \<open>process.exit\<close>.
  \<open>LoopEntered\<close> is a history entry: \<open>fetchBlocksFromQueue\<close> passed its guard and set
  \<open>fetching\<close>.
\<close>

datatype Effect =
  LogEnqueueing "nat option" "nat option" nat
| LoopEntered
| LogFetch nat nat nat
| CallFetchBlocksBatches "nat list"
| LogQueueReset
| EmitBlockQueueSize nat
| CallIndexBlock nat
| LogFailedToIndex nat
| LogFailedToFetch
| ProcessExit

record BlockDispatcher =
  batchSize :: nat
  queue :: "nat Queue"
  processQueue :: AutoQueue
  latestBufferedHeight :: "nat option"
  latestProcessedHeight :: nat
  fetching :: bool
  isShutdown :: bool
  fetchLoop :: FetchLoop
  effects :: "Effect list"

text \<open>The constructor; the processed height comes from the base class's initialisation.\<close>

definition new_BlockDispatcher :: "nat \<Rightarrow> nat \<Rightarrow> BlockDispatcher" where
  "new_BlockDispatcher batch processed =
     \<lparr>batchSize = batch,
      queue = new_Queue (batch * 3),
      processQueue = new_AutoQueue (batch * 3),
      latestBufferedHeight = None,
      latestProcessedHeight = processed,
      fetching = False,
      isShutdown = False,
      fetchLoop = NotRunning,
      effects = []\<rparr>"

definition emit :: "Effect list \<Rightarrow> BlockDispatcher \<Rightarrow> BlockDispatcher" where
  "emit es s = s\<lparr>effects := effects s @ es\<rparr>"

text \<open>lodash \<open>last\<close> and \<open>xs[0]\<close>: \<open>undefined\<close> on the empty list.\<close>

definition last_opt :: "'a list \<Rightarrow> 'a option" where
  "last_opt xs = (if xs = [] then None else Some (last xs))"

definition first_opt :: "'a list \<Rightarrow> 'a option" where
  "first_opt xs = (case xs of [] \<Rightarrow> None | x # _ \<Rightarrow> Some x)"

text \<open>
  Comparisons of JavaScript numbers that may be \<open>undefined\<close>: a comparison with
  \<open>undefined\<close> is false. \<open>Math.min()\<close> of no argument is \<open>Infinity\<close>.
\<close>

definition js_gt :: "nat option \<Rightarrow> nat option \<Rightarrow> bool" where
  "js_gt a b = (case (a, b) of (Some x, Some y) \<Rightarrow> x > y | _ \<Rightarrow> False)"

definition js_lt_min :: "nat option \<Rightarrow> nat list \<Rightarrow> bool" where
  "js_lt_min a xs = (case a of None \<Rightarrow> False | Some x \<Rightarrow> xs = [] \<or> x < min_list xs)"

subsection \<open>The fetch loop\<close>

text \<open>The \<open>finally\<close> block: the loop has ended.\<close>

definition loop_exit :: "BlockDispatcher \<Rightarrow> BlockDispatcher" where
  "loop_exit s = s\<lparr>fetching := False, fetchLoop := NotRunning\<rparr>"

text \<open>
  The loop from its head \<open>while (!this.isShutdown)\<close> to its next suspension or its end:
  it takes a batch of heights and snapshots \<open>latestBufferedHeight\<close>; with no height
  taken it waits (the queue still has items) or ends; otherwise it calls
  \<open>fetchBlocksBatches\<close> and waits for the blocks.
\<close>

definition loop_head :: "BlockDispatcher \<Rightarrow> BlockDispatcher" where
  "loop_head s =
     (if isShutdown s then loop_exit s
      else
        (let (blockNums, q) =
               Queue_takeMany (min (batchSize s) (AutoQueue_freeSpace (processQueue s))) (queue s);
             bufferedHeight = latestBufferedHeight s;
             s1 = s\<lparr>queue := q\<rparr>
         in if blockNums = [] then
              (if Queue_size q \<noteq> 0 then s1\<lparr>fetchLoop := AwaitDelay\<rparr> else loop_exit s1)
            else
              (emit [LogFetch (hd blockNums) (last blockNums) (length blockNums),
                     CallFetchBlocksBatches blockNums] s1)
                \<lparr>fetchLoop := AwaitFetch blockNums bufferedHeight\<rparr>))"

definition fetchBlocksFromQueue :: "BlockDispatcher \<Rightarrow> BlockDispatcher" where
  "fetchBlocksFromQueue s =
     (if fetching s \<or> isShutdown s then s
      else loop_head (emit [LoopEntered] (s\<lparr>fetching := True\<rparr>)))"

text \<open>The \<open>catch\<close> block of the loop, then \<open>finally\<close>.\<close>

definition loop_failed :: "BlockDispatcher \<Rightarrow> BlockDispatcher" where
  "loop_failed s =
     loop_exit (emit (LogFailedToFetch # (if isShutdown s then [] else [ProcessExit])) s)"

text \<open>The staleness check after the blocks have arrived.\<close>

definition is_stale :: "nat list \<Rightarrow> nat option \<Rightarrow> BlockDispatcher \<Rightarrow> bool" where
  "is_stale blockNums bufferedHeight s =
     (js_gt bufferedHeight (latestBufferedHeight s) \<or> js_lt_min (Queue_peek (queue s)) blockNums)"

text \<open>
  \<open>fetchBlocksBatches\<close> resolves with blocks, given by their heights
  (\<open>getBlockHeight\<close>): the loop resumes, discards the batch when it is stale, and
  otherwise submits one task per block and goes round again.
\<close>

definition fetch_resolved :: "nat list \<Rightarrow> BlockDispatcher \<Rightarrow> BlockDispatcher" where
  "fetch_resolved blocks s =
     (case fetchLoop s of
        AwaitFetch blockNums bufferedHeight \<Rightarrow>
          if is_stale blockNums bufferedHeight s then loop_head (emit [LogQueueReset] s)
          else if isShutdown s then loop_exit s
          else (case AutoQueue_putMany blocks (processQueue s) of
                  Inl e \<Rightarrow> loop_failed s
                | Inr pq \<Rightarrow>
                    loop_head (emit [EmitBlockQueueSize (AutoQueue_size pq)]
                                 (s\<lparr>processQueue := pq\<rparr>)))
      | _ \<Rightarrow> s)"

text \<open>\<open>fetchBlocksBatches\<close> rejects.\<close>

definition fetch_rejected :: "BlockDispatcher \<Rightarrow> BlockDispatcher" where
  "fetch_rejected s =
     (case fetchLoop s of AwaitFetch blockNums bufferedHeight \<Rightarrow> loop_failed s | _ \<Rightarrow> s)"

text \<open>\<open>delay(1)\<close> is over: \<open>continue\<close>.\<close>

definition delay_elapsed :: "BlockDispatcher \<Rightarrow> BlockDispatcher" where
  "delay_elapsed s = (case fetchLoop s of AwaitDelay \<Rightarrow> loop_head s | _ \<Rightarrow> s)"

subsection \<open>The public operations\<close>

text \<open>
  \<open>enqueueBlocks(cleanedBlocks, latestBufferHeight?)\<close>: the error thrown (if any) and
  the state afterwards. \<open>!!latestBufferHeight\<close> is false for \<open>undefined\<close> and for \<open>0\<close>;
  \<open>latestBufferHeight ?? last(cleanedBlocks)\<close> falls back for \<open>undefined\<close> only.
\<close>

definition enqueueBlocks ::
  "nat list \<Rightarrow> nat option \<Rightarrow> BlockDispatcher \<Rightarrow> error option \<times> BlockDispatcher" where
  "enqueueBlocks cleanedBlocks latestBufferHeight s =
     (if (case latestBufferHeight of None \<Rightarrow> False | Some h \<Rightarrow> h \<noteq> 0) \<and> cleanedBlocks = []
      then (None, s\<lparr>latestBufferedHeight := latestBufferHeight\<rparr>)
      else
        (let s1 = emit [LogEnqueueing (first_opt cleanedBlocks) (last_opt cleanedBlocks)
                          (length cleanedBlocks)] s
         in case Queue_putMany cleanedBlocks (queue s1) of
              Inl e \<Rightarrow> (Some e, s1)
            | Inr q \<Rightarrow>
                (None,
                 fetchBlocksFromQueue
                   (s1\<lparr>queue := q,
                       latestBufferedHeight :=
                         (case latestBufferHeight of
                            None \<Rightarrow> last_opt cleanedBlocks
                          | Some h \<Rightarrow> Some h)\<rparr>))))"

text \<open>
  \<open>flushQueue(height)\<close>. Modelled from the spec: \<open>super.flushQueue\<close> (the base
  dispatcher is not among the sources) truncates the height queue and sets
  \<open>latestBufferedHeight\<close> to the height. Then the backlog of tasks is flushed.
\<close>

definition flushQueue :: "nat \<Rightarrow> BlockDispatcher \<Rightarrow> BlockDispatcher" where
  "flushQueue height s =
     s\<lparr>queue := Queue_flush (queue s),
       latestBufferedHeight := Some height,
       processQueue := AutoQueue_flush (processQueue s)\<rparr>"

definition onApplicationShutdown :: "BlockDispatcher \<Rightarrow> BlockDispatcher" where
  "onApplicationShutdown s =
     s\<lparr>isShutdown := True, processQueue := AutoQueue_abort (processQueue s)\<rparr>"

text \<open>
  The task runner starts its next task and the task completes. Modelled from the spec:
  \<open>preProcessBlock\<close> and \<open>postProcessBlock\<close> belong to the base dispatcher, which is not
  among the sources; the first asserts that the height is above
  \<open>latestProcessedHeight\<close>, the second advances \<open>latestProcessedHeight\<close>. The user's
  handler \<open>indexBlock\<close> is taken to succeed; a failed assertion is caught by the
  task, which logs it unless the dispatcher is shut down.
\<close>

definition run_task :: "BlockDispatcher \<Rightarrow> BlockDispatcher" where
  "run_task s =
     (if aborted (processQueue s) then s
      else case items (backlog (processQueue s)) of
             [] \<Rightarrow> s
           | height # rest \<Rightarrow>
               (let s1 = s\<lparr>processQueue :=
                            (processQueue s)\<lparr>backlog := (backlog (processQueue s))\<lparr>items := rest\<rparr>\<rparr>\<rparr>
                in if height > latestProcessedHeight s1
                   then (emit [CallIndexBlock height] s1)\<lparr>latestProcessedHeight := height\<rparr>
                   else if isShutdown s1 then s1
                   else emit [LogFailedToIndex height] s1))"

subsection \<open>Runs\<close>

text \<open>
  Everything happens on one cooperative executor, so a run of the dispatcher is a
  sequence of events: calls of its public operations, completions of the awaited
  operations, and task executions.
\<close>

datatype Event =
  EnqueueBlocks "nat list" "nat option"
| FlushQueue nat
| OnApplicationShutdown
| FetchResolved "nat list"
| FetchRejected
| DelayElapsed
| RunTask

fun step :: "Event \<Rightarrow> BlockDispatcher \<Rightarrow> BlockDispatcher" where
  "step (EnqueueBlocks hs h) s = snd (enqueueBlocks hs h s)"
| "step (FlushQueue h) s = flushQueue h s"
| "step OnApplicationShutdown s = onApplicationShutdown s"
| "step (FetchResolved blocks) s = fetch_resolved blocks s"
| "step FetchRejected s = fetch_rejected s"
| "step DelayElapsed s = delay_elapsed s"
| "step RunTask s = run_task s"

definition run :: "Event list \<Rightarrow> BlockDispatcher \<Rightarrow> BlockDispatcher" where
  "run evs s = fold step evs s"

section \<open>Properties of the schema comparison\<close>

text \<open>
  After the loop of \<open>extractTypeDetails\<close> the current node is never a wrapper, so the
  extracted \<open>type\<close> is the same string for every field.
\<close>

lemma extracted_type_NamedType: "type (extractTypeDetails t) = ''NamedType''"
  by (induction t) (simp_all add: extractTypeDetails_def)

lemma unwrapTypeNode_named: "\<exists>n. unwrapTypeNode t = NamedType n"
  by (induction t) simp_all

definition field_differs :: "FieldDefinition list \<Rightarrow> FieldDefinition \<Rightarrow> bool" where
  "field_differs oldFields newField =
     (case find (\<lambda>oldField. field_name oldField = field_name newField) oldFields of
        None \<Rightarrow> False
      | Some old \<Rightarrow> kind (extractTypeDetails (field_type old))
                     \<noteq> kind (extractTypeDetails (field_type newField)))"

lemma map_of_obj_set:
  "map_of (obj_set k v obj) k' =
     (if k = k' \<and> (k \<noteq> ''__proto__'' \<or> map_of obj k \<noteq> None) then Some v else map_of obj k')"
  by (auto simp: obj_set_def update_conv')

lemma modifiedFields_step_key:
  "n \<noteq> ''__proto__'' \<Longrightarrow>
   map_of (modifiedFields_step oldFields newField acc) n \<noteq> None \<longleftrightarrow>
     map_of acc n \<noteq> None \<or> (field_name newField = n \<and> field_differs oldFields newField)"
  by (auto simp: modifiedFields_step_def field_differs_def Let_def map_of_obj_set
           split: option.splits)

lemma modifiedFields_step_proto:
  "map_of acc ''__proto__'' = None \<Longrightarrow>
   map_of (modifiedFields_step oldFields newField acc) ''__proto__'' = None"
  by (auto simp: modifiedFields_step_def Let_def map_of_obj_set split: option.splits)

lemma fold_modifiedFields_proto:
  "map_of acc ''__proto__'' = None \<Longrightarrow>
   map_of (fold (modifiedFields_step oldFields) newFields acc) ''__proto__'' = None"
  by (induction newFields arbitrary: acc) (simp_all add: modifiedFields_step_proto)

lemma fold_modifiedFields_key:
  "n \<noteq> ''__proto__'' \<Longrightarrow>
   map_of (fold (modifiedFields_step oldFields) newFields acc) n \<noteq> None \<longleftrightarrow>
     map_of acc n \<noteq> None
     \<or> list_ex (\<lambda>newField. field_name newField = n \<and> field_differs oldFields newField) newFields"
proof (induction newFields arbitrary: acc)
  case Nil
  then show ?case by simp
next
  case (Cons f fs)
  show ?case
    unfolding fold_Cons comp_apply Cons.IH[OF Cons.prems] modifiedFields_step_key[OF Cons.prems]
    by auto
qed

lemma find_distinct_unique:
  "distinct (map field_name fs) \<Longrightarrow> find (\<lambda>f. field_name f = n) fs = Some nf \<Longrightarrow>
   list_ex (\<lambda>f. field_name f = n \<and> P f) fs \<longleftrightarrow> P nf"
proof (induction fs)
  case Nil
  then show ?case by simp
next
  case (Cons a fs)
  then show ?case
    by (auto simp: list_ex_iff image_iff split: if_splits)
qed

text \<open>
  With distinct field names in the new version, a field present in both versions and
  not named \<open>__proto__\<close> is a key of \<open>modifiedFields\<close> exactly when its extracted type
  or kind differs. A field named \<open>__proto__\<close> is never a key.
\<close>

lemma modifiedFields_iff_type_or_kind:
  assumes "n \<noteq> ''__proto__''"
    and "distinct (map field_name newFields)"
    and "find (\<lambda>f. field_name f = n) newFields = Some newField"
    and "find (\<lambda>f. field_name f = n) oldFields = Some oldField"
  shows "map_of (modifiedFields oldFields newFields) n \<noteq> None \<longleftrightarrow>
           type (extractTypeDetails (field_type oldField)) \<noteq> type (extractTypeDetails (field_type newField))
           \<or> kind (extractTypeDetails (field_type oldField)) \<noteq> kind (extractTypeDetails (field_type newField))"
proof -
  have name: "field_name newField = n"
    using assms(3) by (auto simp: find_Some_iff)
  have "map_of (modifiedFields oldFields newFields) n \<noteq> None \<longleftrightarrow> field_differs oldFields newField"
    unfolding modifiedFields_def fold_modifiedFields_key[OF assms(1)]
    using find_distinct_unique[OF assms(2,3)] by simp
  also have "\<dots> \<longleftrightarrow> kind (extractTypeDetails (field_type oldField)) \<noteq> kind (extractTypeDetails (field_type newField))"
    using assms(4) name by (simp add: field_differs_def)
  finally show ?thesis
    by (simp add: extracted_type_NamedType)
qed



text \<open>
  The visitor of the current schema does not touch \<open>modifiedEntities\<close>, and the
  visitor of the new schema writes the entry of a type only at the definition of that
  type.
\<close>

lemma modifiedEntities_visit_current:
  "modifiedEntities (visit_current nextDefs d changes) = modifiedEntities changes"
  by (cases d) simp_all

lemma modifiedEntities_fold_visit_current:
  "modifiedEntities (fold (visit_current nextDefs) ds changes) = modifiedEntities changes"
  by (induction ds arbitrary: changes) (simp_all add: modifiedEntities_visit_current)

lemma visit_next_other_type:
  "\<not> is_object_named typeName d \<Longrightarrow>
   map_of (modifiedEntities (visit_next currentDefs d changes)) typeName
     = map_of (modifiedEntities changes) typeName"
  by (cases d)
     (auto simp: Let_def map_of_obj_set split: option.splits DefinitionNode.splits)

lemma fold_visit_next_other_types:
  "filter (is_object_named typeName) ds = [] \<Longrightarrow>
   map_of (modifiedEntities (fold (visit_next currentDefs) ds changes)) typeName
     = map_of (modifiedEntities changes) typeName"
proof (induction ds arbitrary: changes)
  case Nil
  then show ?case by simp
next
  case (Cons d ds)
  from Cons.prems have d: "\<not> is_object_named typeName d"
    and ds: "filter (is_object_named typeName) ds = []"
    by (auto split: if_splits)
  show ?case
    by (simp add: Cons.IH[OF ds] visit_next_other_type[OF d])
qed

lemma visit_next_same_type:
  assumes "typeName \<noteq> ''__proto__''"
    and "find (is_object_named typeName) currentDefs = Some (ObjectTypeDefinition typeName oldFields)"
    and "map_of (modifiedEntities changes) typeName = None"
  shows "(\<exists>ec. map_of (modifiedEntities
                  (visit_next currentDefs (ObjectTypeDefinition typeName newFields) changes)) typeName
                = Some ec
              \<and> map_of (modifiedFields_of ec) n \<noteq> None)
         \<longleftrightarrow> map_of (modifiedFields oldFields newFields) n \<noteq> None"
  using assms by (auto simp: Let_def map_of_obj_set)

text \<open>
  Claim C7. In \<open>compareSchema\<close>, for an entity type that both schemas define and a
  field name present in both versions of it, the field is reported in the
  \<open>modifiedFields\<close> of the entity's changes if and only if the field's extracted type
  differs between the two schemas or its extracted kind differs. The source compares
  \<open>kind\<close> on both sides of its disjunction; since the extracted \<open>type\<close> never
  differs, that is the same condition. The new schema defines the type once and its
  field names are distinct, as in every printed GraphQL schema. The type and the field
  are not named \<open>__proto__\<close> (GraphQL reserves the names that begin with two
  underscores): assigning to that key of the result object adds no property.
\<close>

theorem compareSchema_modified_iff_type_or_kind:
  assumes "typeName \<noteq> ''__proto__''"
    and "n \<noteq> ''__proto__''"
    and "find (is_object_named typeName) currentSchemaAST
             = Some (ObjectTypeDefinition typeName oldFields)"
    and "filter (is_object_named typeName) nextSchemaAST
             = [ObjectTypeDefinition typeName newFields]"
    and "distinct (map field_name newFields)"
    and "find (\<lambda>f. field_name f = n) newFields = Some newField"
    and "find (\<lambda>f. field_name f = n) oldFields = Some oldField"
  shows "(\<exists>ec. map_of (modifiedEntities (compareSchema currentSchemaAST nextSchemaAST)) typeName
                  = Some ec
              \<and> map_of (modifiedFields_of ec) n \<noteq> None)
         \<longleftrightarrow>
           type (extractTypeDetails (field_type oldField))
             \<noteq> type (extractTypeDetails (field_type newField))
           \<or> kind (extractTypeDetails (field_type oldField))
             \<noteq> kind (extractTypeDetails (field_type newField))"
proof -
  let ?init = "\<lparr>addedEntities = [], removedEntities = [], modifiedEntities = []\<rparr>"
  from assms(4) obtain pre post where
    split: "nextSchemaAST = pre @ ObjectTypeDefinition typeName newFields # post"
    and pre': "\<forall>u\<in>set pre. \<not> is_object_named typeName u"
    and post': "[] = filter (is_object_named typeName) post"
    unfolding filter_eq_Cons_iff by blast
  have pre: "filter (is_object_named typeName) pre = []"
    using pre' by (simp add: filter_empty_conv)
  have post: "filter (is_object_named typeName) post = []"
    using post' by simp
  let ?c1 = "fold (visit_next currentSchemaAST) pre ?init"
  let ?c2 = "visit_next currentSchemaAST (ObjectTypeDefinition typeName newFields) ?c1"
  have c1: "map_of (modifiedEntities ?c1) typeName = None"
    by (simp add: fold_visit_next_other_types[OF pre])
  have "map_of (modifiedEntities (compareSchema currentSchemaAST nextSchemaAST)) typeName
          = map_of (modifiedEntities ?c2) typeName"
    unfolding compareSchema_def modifiedEntities_fold_visit_current split
    by (simp add: fold_visit_next_other_types[OF post])
  then have "(\<exists>ec. map_of (modifiedEntities (compareSchema currentSchemaAST nextSchemaAST)) typeName
                  = Some ec \<and> map_of (modifiedFields_of ec) n \<noteq> None)
             \<longleftrightarrow> map_of (modifiedFields oldFields newFields) n \<noteq> None"
    using visit_next_same_type[OF assms(1) assms(3) c1, of newFields n] by simp
  then show ?thesis
    using modifiedFields_iff_type_or_kind[OF assms(2) assms(5,6,7)] by simp
qed

text \<open>
  Witness of C7: in the type \<open>Account\<close>, \<open>amount\<close> changes from \<open>Int\<close> to
  \<open>[BigInt]\<close> and is reported; \<open>id\<close> stays \<open>ID!\<close> and is not.
\<close>

theorem compareSchema_modified_iff_type_or_kind_witness:
  "(\<exists>ec. map_of (modifiedEntities (compareSchema
        [ObjectTypeDefinition ''Account''
           [\<lparr>field_name = ''id'', field_type = NonNullType (NamedType ''ID'')\<rparr>,
            \<lparr>field_name = ''amount'', field_type = NamedType ''Int''\<rparr>]]
        [ObjectTypeDefinition ''Account''
           [\<lparr>field_name = ''id'', field_type = NonNullType (NamedType ''ID'')\<rparr>,
            \<lparr>field_name = ''amount'', field_type = ListType (NamedType ''BigInt'')\<rparr>]]))
      ''Account'' = Some ec
      \<and> map_of (modifiedFields_of ec) ''amount'' \<noteq> None)
   \<and> \<not> (\<exists>ec. map_of (modifiedEntities (compareSchema
        [ObjectTypeDefinition ''Account''
           [\<lparr>field_name = ''id'', field_type = NonNullType (NamedType ''ID'')\<rparr>,
            \<lparr>field_name = ''amount'', field_type = NamedType ''Int''\<rparr>]]
        [ObjectTypeDefinition ''Account''
           [\<lparr>field_name = ''id'', field_type = NonNullType (NamedType ''ID'')\<rparr>,
            \<lparr>field_name = ''amount'', field_type = ListType (NamedType ''BigInt'')\<rparr>]]))
      ''Account'' = Some ec
      \<and> map_of (modifiedFields_of ec) ''id'' \<noteq> None)"
proof -
  let ?old = "[\<lparr>field_name = ''id'', field_type = NonNullType (NamedType ''ID'')\<rparr>,
        \<lparr>field_name = ''amount'', field_type = NamedType ''Int''\<rparr>]"
  let ?new = "[\<lparr>field_name = ''id'', field_type = NonNullType (NamedType ''ID'')\<rparr>,
        \<lparr>field_name = ''amount'', field_type = ListType (NamedType ''BigInt'')\<rparr>]"
  have t: "''Account'' \<noteq> ''__proto__''" by simp
  have m1: "''amount'' \<noteq> ''__proto__''" by simp
  have m2: "''id'' \<noteq> ''__proto__''" by simp
  have c: "find (is_object_named ''Account'') [ObjectTypeDefinition ''Account'' ?old]
             = Some (ObjectTypeDefinition ''Account'' ?old)"
    by simp
  have f: "filter (is_object_named ''Account'') [ObjectTypeDefinition ''Account'' ?new]
             = [ObjectTypeDefinition ''Account'' ?new]"
    by simp
  have d: "distinct (map field_name ?new)" by simp
  have n1: "find (\<lambda>f. field_name f = ''amount'') ?new
              = Some \<lparr>field_name = ''amount'', field_type = ListType (NamedType ''BigInt'')\<rparr>"
    by simp
  have o1: "find (\<lambda>f. field_name f = ''amount'') ?old
              = Some \<lparr>field_name = ''amount'', field_type = NamedType ''Int''\<rparr>"
    by simp
  have n2: "find (\<lambda>f. field_name f = ''id'') ?new
              = Some \<lparr>field_name = ''id'', field_type = NonNullType (NamedType ''ID'')\<rparr>"
    by simp
  have o2: "find (\<lambda>f. field_name f = ''id'') ?old
              = Some \<lparr>field_name = ''id'', field_type = NonNullType (NamedType ''ID'')\<rparr>"
    by simp
  have a: "kind (extractTypeDetails (NamedType ''Int''))
             \<noteq> kind (extractTypeDetails (ListType (NamedType ''BigInt'')))"
    by (simp add: extractTypeDetails_def)
  have b: "\<not> (type (extractTypeDetails (NonNullType (NamedType ''ID'')))
                \<noteq> type (extractTypeDetails (NonNullType (NamedType ''ID'')))
              \<or> kind (extractTypeDetails (NonNullType (NamedType ''ID'')))
                \<noteq> kind (extractTypeDetails (NonNullType (NamedType ''ID''))))"
    by simp
  show ?thesis
    using compareSchema_modified_iff_type_or_kind [OF t m1 c f d n1 o1]
          compareSchema_modified_iff_type_or_kind [OF t m2 c f d n2 o2] a b
    by simp
qed

text \<open>
  A field named \<open>__proto__\<close> whose type name changes from \<open>Int\<close> to \<open>String\<close> is not a
  key of \<open>modifiedFields\<close>.
\<close>

lemma modifiedFields_proto_not_reported:
  "map_of (modifiedFields
       [\<lparr>field_name = ''__proto__'', field_type = NamedType ''Int''\<rparr>]
       [\<lparr>field_name = ''__proto__'', field_type = NamedType ''String''\<rparr>]) ''__proto__'' = None"
  by (simp add: modifiedFields_def modifiedFields_step_proto)

section \<open>Properties of the entity store cache\<close>

lemma obj_get_Own_iff: "obj_get obj k = Own v \<longleftrightarrow> map_of obj k = Some v"
  by (simp add: obj_get_def split: option.splits)

lemma obj_get_Undefined_iff:
  "obj_get obj k = Undefined \<longleftrightarrow> map_of obj k = None \<and> k \<notin> set Object_prototype_keys"
  by (simp add: obj_get_def split: option.splits)

lemma obj_get_obj_set_same:
  "obj_get obj k = Undefined \<or> obj_get obj k = Own w \<Longrightarrow> obj_get (obj_set k v obj) k = Own v"
  by (auto simp: obj_get_def obj_set_def update_conv' Object_prototype_keys_def
           split: option.splits if_splits)

lemma proto_is_prototype_key: "''__proto__'' \<in> set Object_prototype_keys"
  by (simp add: Object_prototype_keys_def)

lemma map_of_lru_set_same: "map_of (lru_set c k v) k = Some v"
  by (simp add: lru_set_def getCacheOptions_max_def take_Cons')

lemma map_of_lru_delete: "map_of (lru_delete c k) k' = (if k' = k then None else map_of c k')"
  by (induction c) (auto simp: lru_delete_def)

lemma lru_get_value: "fst (lru_get c k) = (case map_of c k of None \<Rightarrow> None | Some v \<Rightarrow> v)"
  by (simp add: lru_get_def split: option.splits)

lemma map_of_lru_get: "map_of (snd (lru_get c k)) k' = map_of c k'"
  by (auto simp: lru_get_def map_of_lru_delete split: option.splits)

lemma getLatest_Some_iff: "getLatest m = Some v \<longleftrightarrow> m \<noteq> [] \<and> v = last m"
  by (auto simp: getLatest_def)

lemma setCache_inhabited_lookup:
  "setCache_inhabited s \<Longrightarrow> map_of (setCache s) i = Some m \<Longrightarrow> m \<noteq> []"
  by (force simp: setCache_inhabited_def list_all_iff dest: map_of_SomeD)



text \<open>
  For an id that names a property of \<open>Object.prototype\<close> and is in none of the two
  dictionaries, \<open>get\<close> returns NULL without any lookup, \<open>remove\<close> does nothing and
  \<open>set\<close> throws.
\<close>

lemma CachedModel_get_prototype_key:
  "i \<in> set Object_prototype_keys \<Longrightarrow> CachedModel_get db i s = (Inr None, s)"
  by (simp add: CachedModel_get_def obj_get_def split: option.splits)

lemma CachedModel_remove_prototype_key:
  "i \<in> set Object_prototype_keys \<Longrightarrow> CachedModel_remove i h s = s"
  by (simp add: CachedModel_remove_def obj_get_def split: option.splits)

lemma CachedModel_set_prototype_key:
  "i \<in> set Object_prototype_keys \<Longrightarrow> map_of (setCache s) i = None \<Longrightarrow>
   CachedModel_set i d h s = (Some TypeError, s)"
  by (simp add: CachedModel_set_def obj_get_def)

text \<open>
  The invariant \<open>setCache_inhabited\<close> holds initially and is kept by \<open>set\<close> and
  \<open>remove\<close>.
\<close>

lemma SetValueModel_set_nonempty: "SetValueModel_set d h m = Inr m' \<Longrightarrow> m' \<noteq> []"
  by (auto simp: SetValueModel_set_def split: option.splits if_splits)

lemma SetValueModel_set_latest:
  "SetValueModel_set d h m = Inr m' \<Longrightarrow> data (last m') = d \<and> startHeight (last m') = h"
  by (auto simp: SetValueModel_set_def getLatest_def split: option.splits if_splits)

lemma SetValueModel_set_empty:
  "SetValueModel_set d h [] = Inr [\<lparr>data = d, startHeight = h, endHeight = None\<rparr>]"
  by (simp add: SetValueModel_set_def getLatest_def)

lemma markAsRemoved_nonempty: "m \<noteq> [] \<Longrightarrow> markAsRemoved h m \<noteq> []"
  by (auto simp: markAsRemoved_def split: option.splits)

lemma list_all_update:
  "list_all P xs \<Longrightarrow> P (k, v) \<Longrightarrow> list_all P (AList.update k v xs)"
  by (induction xs) auto

lemma list_all_obj_set:
  "list_all P xs \<Longrightarrow> P (k, v) \<Longrightarrow> list_all P (obj_set k v xs)"
  by (simp add: obj_set_def list_all_update)

lemma setCache_inhabited_new: "setCache_inhabited new_CachedModel"
  by (simp add: setCache_inhabited_def new_CachedModel_def)

text \<open>What a call of \<open>set\<close> that returns has done.\<close>

lemma CachedModel_set_returns:
  assumes "CachedModel_set i d h s = (None, s')"
  shows "\<exists>m m'. (obj_get (setCache s) i = Undefined \<and> m = [] \<or> obj_get (setCache s) i = Own m)
           \<and> SetValueModel_set d h m = Inr m'
           \<and> s' = s\<lparr>setCache := obj_set i m' (if obj_get (setCache s) i = Undefined
                                                then obj_set i [] (setCache s) else setCache s),
                      getCache := lru_set (getCache s) i (Some d),
                      flushableRecordCounter := flushableRecordCounter s + 1\<rparr>"
proof (cases "obj_get (setCache s) i")
  case (Own m)
  with assms show ?thesis
    by (auto simp: CachedModel_set_def Let_def split: sum.splits)
next
  case Inherited
  with assms show ?thesis by (simp add: CachedModel_set_def)
next
  case Undefined
  then have o: "obj_get (obj_set i [] (setCache s)) i = Own []"
    by (simp add: obj_get_obj_set_same)
  with Undefined assms show ?thesis
    by (auto simp: CachedModel_set_def Let_def split: sum.splits)
qed

lemma setCache_inhabited_set:
  assumes "setCache_inhabited s" and "CachedModel_set i d h s = (None, s')"
  shows "setCache_inhabited s'"
proof -
  from CachedModel_set_returns[OF assms(2)] obtain m m' where
    m': "SetValueModel_set d h m = Inr m'"
    and s': "s' = s\<lparr>setCache := obj_set i m' (if obj_get (setCache s) i = Undefined
                                                then obj_set i [] (setCache s) else setCache s),
                      getCache := lru_set (getCache s) i (Some d),
                      flushableRecordCounter := flushableRecordCounter s + 1\<rparr>"
    by blast
  have ne: "m' \<noteq> []" using m' by (rule SetValueModel_set_nonempty)
  have a: "list_all (\<lambda>p. snd p \<noteq> []) (obj_set i m' (setCache s))"
    using assms(1) ne by (simp add: setCache_inhabited_def list_all_obj_set)
  show ?thesis
  proof (cases "obj_get (setCache s) i = Undefined")
    case True
    then have "i \<noteq> ''__proto__''"
      using proto_is_prototype_key by (auto simp: obj_get_Undefined_iff)
    then have "obj_set i m' (obj_set i [] (setCache s)) = obj_set i m' (setCache s)"
      by (simp add: obj_set_def)
    with a True show ?thesis by (simp add: s' setCache_inhabited_def)
  next
    case False
    with a show ?thesis by (simp add: s' setCache_inhabited_def)
  qed
qed

lemma setCache_inhabited_remove:
  assumes "setCache_inhabited s"
  shows "setCache_inhabited (CachedModel_remove i h s)"
proof (cases "obj_get (setCache s) i")
  case (Own m)
  then have "map_of (setCache s) i = Some m" by (simp add: obj_get_Own_iff)
  with assms have "m \<noteq> []" by (auto dest: setCache_inhabited_lookup)
  then have "markAsRemoved h m \<noteq> []" by (rule markAsRemoved_nonempty)
  with Own assms show ?thesis
    by (simp add: CachedModel_remove_def Let_def setCache_inhabited_def list_all_obj_set
             split: prod.splits)
next
  case Inherited
  with assms show ?thesis
    by (simp add: CachedModel_remove_def Let_def setCache_inhabited_def split: prod.splits)
next
  case Undefined
  with assms show ?thesis
    by (simp add: CachedModel_remove_def Let_def setCache_inhabited_def split: prod.splits)
qed

text \<open>
  Counterexample to C4 as stated: the second \<open>set\<close> of an id that is already in
  \<open>setCache\<close> moves \<open>flushableRecordCounter\<close> from 1 to 2.
\<close>

theorem CachedModel_set_second_write_counterexample:
  "map_of (setCache (snd (CachedModel_set ''a'' \<lparr>ent_id = ''a'', attrs = []\<rparr> 1 new_CachedModel))) ''a''
     \<noteq> None
   \<and> flushableRecordCounter
        (snd (CachedModel_set ''a'' \<lparr>ent_id = ''a'', attrs = []\<rparr> 1 new_CachedModel)) = 1
   \<and> flushableRecordCounter
        (snd (CachedModel_set ''a'' \<lparr>ent_id = ''a'', attrs = []\<rparr> 2
           (snd (CachedModel_set ''a'' \<lparr>ent_id = ''a'', attrs = []\<rparr> 1 new_CachedModel)))) = 2"
  by code_simp

text \<open>
  Claim C4, as amended. A call \<open>set(id, data, h)\<close> that returns upserts into
  \<open>setCache\<close> (the latest version of the id's model holds the data, from height
  \<open>h\<close>), mirrors the data into \<open>getCache\<close>, and increments
  \<open>flushableRecordCounter\<close> by one, on every call and not only on the first write
  for the id.
\<close>

theorem CachedModel_set_counts_every_write:
  assumes "CachedModel_set i d h s = (None, s')"
  shows "(\<exists>m. map_of (setCache s') i = Some m \<and> getLatest m = Some (last m)
              \<and> data (last m) = d \<and> startHeight (last m) = h)
         \<and> map_of (getCache s') i = Some (Some d)
         \<and> removeCache s' = removeCache s
         \<and> flushableRecordCounter s' = flushableRecordCounter s + 1"
proof -
  let ?sc = "if obj_get (setCache s) i = Undefined then obj_set i [] (setCache s) else setCache s"
  from CachedModel_set_returns[OF assms] obtain m m' where
    m: "obj_get (setCache s) i = Undefined \<and> m = [] \<or> obj_get (setCache s) i = Own m"
    and m': "SetValueModel_set d h m = Inr m'"
    and s': "s' = s\<lparr>setCache := obj_set i m' ?sc,
                      getCache := lru_set (getCache s) i (Some d),
                      flushableRecordCounter := flushableRecordCounter s + 1\<rparr>"
    by blast
  have ne: "m' \<noteq> []" using m' by (rule SetValueModel_set_nonempty)
  have "obj_get ?sc i = Own m"
    using m by (auto simp: obj_get_obj_set_same)
  then have "obj_get (obj_set i m' ?sc) i = Own m'"
    by (rule obj_get_obj_set_same[OF disjI2])
  then have "map_of (setCache s') i = Some m'" by (simp add: s' obj_get_Own_iff)
  moreover have "getLatest m' = Some (last m')" using ne by (simp add: getLatest_def)
  moreover have "data (last m') = d \<and> startHeight (last m') = h"
    using m' by (rule SetValueModel_set_latest)
  moreover have "map_of (getCache s') i = Some (Some d)" by (simp add: s' map_of_lru_set_same)
  moreover have "removeCache s' = removeCache s" by (simp add: s')
  moreover have "flushableRecordCounter s' = flushableRecordCounter s + 1" by (simp add: s')
  ultimately show ?thesis by blast
qed

text \<open>
  Witness of the amended C4: the first \<open>set\<close> on a new model.
\<close>

theorem CachedModel_set_counts_every_write_witness:
  "map_of (getCache (snd (CachedModel_set ''a'' \<lparr>ent_id = ''a'', attrs = []\<rparr> 1 new_CachedModel))) ''a''
     = Some (Some \<lparr>ent_id = ''a'', attrs = []\<rparr>)
   \<and> flushableRecordCounter
        (snd (CachedModel_set ''a'' \<lparr>ent_id = ''a'', attrs = []\<rparr> 1 new_CachedModel))
     = flushableRecordCounter new_CachedModel + 1"
proof -
  have h: "CachedModel_set ''a'' \<lparr>ent_id = ''a'', attrs = []\<rparr> 1 new_CachedModel
             = (None, snd (CachedModel_set ''a'' \<lparr>ent_id = ''a'', attrs = []\<rparr> 1 new_CachedModel))"
    by code_simp
  show ?thesis
    using CachedModel_set_counts_every_write [OF h] by simp
qed

text \<open>
  Claim C8. \<open>remove(id, h)\<close> applied twice is the same as applying it once: the second
  call leaves \<open>setCache\<close>, \<open>removeCache\<close>, \<open>getCache\<close> and
  \<open>flushableRecordCounter\<close>, which are the whole state, unchanged.
\<close>

theorem CachedModel_remove_idempotent:
  "CachedModel_remove i h (CachedModel_remove i h s) = CachedModel_remove i h s"
proof (cases "obj_get (removeCache s) i = Undefined")
  case True
  then have "obj_get (obj_set i \<lparr>removedAtBlock = h\<rparr> (removeCache s)) i = Own \<lparr>removedAtBlock = h\<rparr>"
    by (simp add: obj_get_obj_set_same)
  then have "obj_get (removeCache (CachedModel_remove i h s)) i = Own \<lparr>removedAtBlock = h\<rparr>"
    using True
    by (simp add: CachedModel_remove_def Let_def split: prod.splits property.splits)
  then show ?thesis
    by (simp add: CachedModel_remove_def[of i h "CachedModel_remove i h s"])
next
  case False
  then show ?thesis by (simp add: CachedModel_remove_def)
qed

text \<open>
  Witness of C8: removing \<open>a\<close> at height 7 twice from a new model.
\<close>

theorem CachedModel_remove_idempotent_witness:
  "CachedModel_remove ''a'' 7 (CachedModel_remove ''a'' 7 new_CachedModel)
     = \<lparr>getCache = [], setCache = [], removeCache = [(''a'', \<lparr>removedAtBlock = 7\<rparr>)],
        flushableRecordCounter = 1\<rparr>"
proof -
  have "CachedModel_remove ''a'' 7 new_CachedModel
          = \<lparr>getCache = [], setCache = [], removeCache = [(''a'', \<lparr>removedAtBlock = 7\<rparr>)],
             flushableRecordCounter = 1\<rparr>"
    by code_simp
  then show ?thesis
    using CachedModel_remove_idempotent [of "''a''" 7 new_CachedModel] by simp
qed

text \<open>
  Any \<open>fields\<close> array, also the empty one, makes \<open>bulkUpdate\<close> throw.
\<close>

lemma bulkUpdate_fields_error:
  "\<exists>err. fst (bulkUpdate ds h (Some fs) s) = Some err"
  by (simp add: bulkUpdate_def split: prod.splits option.splits)

text \<open>
  Claim C9. For every entity list, height and non-empty \<open>fields\<close> argument,
  \<open>bulkUpdate(data, blockHeight, fields)\<close> raises an error; when every \<open>set\<close> of
  the loop succeeds it is the error that updating by fields is not supported.
\<close>

theorem bulkUpdate_with_fields_raises:
  assumes "fs \<noteq> []"
  shows "(\<exists>err. fst (bulkUpdate ds h (Some fs) s) = Some err)
         \<and> (fst (bulkCreate ds h s) = None \<longrightarrow>
              fst (bulkUpdate ds h (Some fs) s) = Some (Error ''Currently not support update by fields''))"
  by (auto simp: bulkUpdate_def split: prod.splits option.splits)

text \<open>
  Witness of C9: one entity and the fields \<open>['name']\<close>.
\<close>

theorem bulkUpdate_with_fields_raises_witness:
  "fst (bulkUpdate [\<lparr>ent_id = ''a'', attrs = []\<rparr>] 3 (Some [''name'']) new_CachedModel)
     = Some (Error ''Currently not support update by fields'')"
proof -
  have h: "[''name''] \<noteq> []" by simp
  have c: "fst (bulkCreate [\<lparr>ent_id = ''a'', attrs = []\<rparr>] 3 new_CachedModel) = None"
    by code_simp
  show ?thesis
    using bulkUpdate_with_fields_raises [OF h, of "[\<lparr>ent_id = ''a'', attrs = []\<rparr>]" 3 new_CachedModel] c
    by simp
qed

text \<open>
  Claim C10. For a model whose \<open>setCache\<close> is empty, after \<open>remove(id, h)\<close> the
  model is still not flushable, for every id; and \<open>removeCache\<close> is then not empty
  and holds the id, for every id that is not the name of a property of
  \<open>Object.prototype\<close> (for such a name \<open>remove\<close> does nothing). Pending removals
  alone never make \<open>isFlushable\<close> true.
\<close>

theorem removal_alone_not_flushable:
  assumes "setCache s = []"
  shows "\<not> CachedModel_isFlushable (CachedModel_remove i h s)
         \<and> (i \<notin> set Object_prototype_keys \<longrightarrow>
              removeCache (CachedModel_remove i h s) \<noteq> []
              \<and> map_of (removeCache (CachedModel_remove i h s)) i \<noteq> None)"
proof -
  have sc: "setCache (CachedModel_remove i h s) = []"
    using assms
    by (simp add: CachedModel_remove_def Let_def obj_get_def split: prod.splits)
  have rc: "map_of (removeCache (CachedModel_remove i h s)) i \<noteq> None"
    if "i \<notin> set Object_prototype_keys"
  proof (cases "map_of (removeCache s) i")
    case None
    with that have u: "obj_get (removeCache s) i = Undefined"
      by (simp add: obj_get_Undefined_iff)
    then have "obj_get (obj_set i \<lparr>removedAtBlock = h\<rparr> (removeCache s)) i = Own \<lparr>removedAtBlock = h\<rparr>"
      by (simp add: obj_get_obj_set_same)
    then show ?thesis
      using u assms
      by (simp add: CachedModel_remove_def Let_def obj_get_Own_iff obj_get_def[of "[]"]
               split: prod.splits)
  next
    case (Some r)
    then show ?thesis by (simp add: CachedModel_remove_def obj_get_def)
  qed
  then have "removeCache (CachedModel_remove i h s) \<noteq> []"
    if "i \<notin> set Object_prototype_keys"
    using that by auto
  with sc rc show ?thesis by (simp add: CachedModel_isFlushable_def)
qed

text \<open>
  Witness of C10: a removal from a new model.
\<close>

theorem removal_alone_not_flushable_witness:
  "\<not> CachedModel_isFlushable (CachedModel_remove ''a'' 7 new_CachedModel)
   \<and> removeCache (CachedModel_remove ''a'' 7 new_CachedModel) \<noteq> []"
proof -
  have h: "setCache new_CachedModel = []" by (simp add: new_CachedModel_def)
  have k: "''a'' \<notin> set Object_prototype_keys" by (simp add: Object_prototype_keys_def)
  show ?thesis
    using removal_alone_not_flushable [OF h, of "''a''" 7] k by simp
qed

text \<open>
  Claim C5, at the input \<open>getOneByField('name', 'x')\<close> on a new model over a database
  without rows: no cache entry matches, the lookup returns no row, and the call throws
  a \<open>TypeError\<close> instead of returning NULL.
\<close>

theorem getOneByField_absent_row_throws:
  "getOneByField \<lparr>findOne_id = (\<lambda>i. None), findOne_where = (\<lambda>f v ids. None)\<rparr>
     ''name'' (JStr ''x'') new_CachedModel = (Inl TypeError, new_CachedModel)"
  by code_simp

text \<open>
  The same for every field other than \<open>id\<close>: with no match in the caches and no row
  in the database, \<open>getOneByField\<close> throws.
\<close>

lemma getOneByField_no_row:
  assumes "field \<noteq> ''id''"
    and "getFromCache (Some field) (Some v) True s = (Inr [], s')"
    and "findOne_where db field v (allCachedIds s') = None"
  shows "getOneByField db field v s = (Inl TypeError, s')"
  using assms by (auto simp: getOneByField_def)

section \<open>Properties of the metadata cache\<close>

lemma setIncrement_exact:
  assumes "(case map_of (counters (md_setCache s)) k of None \<Rightarrow> 0 | Some n \<Rightarrow> n) = pending"
    and "safe_integer pending" and "safe_integer a" and "safe_integer (pending + a)"
  shows "setIncrement k a s =
           Some (s\<lparr>md_setCache := (md_setCache s)\<lparr>counters :=
                   AList.update k (pending + a) (counters (md_setCache s))\<rparr>\<rparr>)"
  using assms by (simp add: setIncrement_def js_add_def)

lemma flush_increment_other_key:
  "flush_increment pending key (Inr table) = Inr table' \<Longrightarrow> key \<noteq> k \<Longrightarrow>
   map_of (counters table') k = map_of (counters table) k"
  by (auto simp: flush_increment_def incrementJsonbCount_def update_conv'
           split: option.splits if_splits)

lemma flush_increment_no_pending:
  "map_of (counters pending) key = None \<Longrightarrow> flush_increment pending key (Inr table) = Inr table"
  by (simp add: flush_increment_def)

lemma flush_increment_adds:
  assumes "map_of (counters pending) key = Some amount"
    and "map_of (counters table) key = Some v"
    and "in_int4 v" and "in_int4 (v + amount)" and "safe_integer amount"
  shows "flush_increment pending key (Inr table)
           = Inr (if amount = 0 then table
                  else table\<lparr>counters := AList.update key (v + amount) (counters table)\<rparr>)"
  using assms
  by (auto simp: flush_increment_def incrementJsonbCount_def in_int4_def in_int8_def
                 safe_integer_def)

lemma flush_increment_in_range:
  assumes "increment_in_range pending key table"
  shows "\<exists>table'. flush_increment pending key (Inr table) = Inr table'
           \<and> (\<forall>k. k \<noteq> key \<longrightarrow> map_of (counters table') k = map_of (counters table) k)"
  using assms
  by (auto simp: increment_in_range_def flush_increment_def incrementJsonbCount_def
                 in_int4_def in_int8_def safe_integer_def update_conv'
           split: option.splits)

lemma increment_in_range_cong:
  "map_of (counters pending') key = map_of (counters pending) key \<Longrightarrow>
   map_of (counters table') key = map_of (counters table) key \<Longrightarrow>
   increment_in_range pending' key table' = increment_in_range pending key table"
  by (simp add: increment_in_range_def)

text \<open>
  Claim C3. For whole numbers in the range where the arithmetic of the code is exact
  (the pending value, \<open>a\<close>, \<open>b\<close> and the sums are safe integers, the stored value and
  the new value fit the SQL type \<open>int\<close>, and the same for the add of the other
  increment key, if one is pending): \<open>setIncrement(k, a)\<close> followed by \<open>setIncrement(k, b)\<close> accumulates \<open>a + b\<close> into
  the pending write of \<open>k\<close>, on top of the pending value (\<open>0\<close> when there was none), and
  a following flush succeeds and leaves the stored value of \<open>k\<close> equal to the value
  stored at flush time plus the accumulated delta: the flush adds, it does not
  overwrite. Afterwards no write is pending.
\<close>

theorem setIncrement_twice_then_flush:
  assumes "map_of (counters table) k = Some prior"
    and "(case map_of (counters (md_setCache s)) k of None \<Rightarrow> 0 | Some n \<Rightarrow> n) = pending"
    and "safe_integer pending" and "safe_integer a" and "safe_integer b"
    and "safe_integer (pending + a)" and "safe_integer (pending + a + b)"
    and "in_int4 prior" and "in_int4 (prior + (pending + a + b))"
    and "list_all (\<lambda>k'. k' = k \<or> increment_in_range (md_setCache s) k' table) incrementKeys"
  shows "\<exists>s1 s2 s3 table'.
           setIncrement k a s = Some s1 \<and> setIncrement k b s1 = Some s2
           \<and> map_of (counters (md_setCache s2)) k = Some (pending + a + b)
           \<and> CacheMetadataModel_flush s2 table = (None, s3, table')
           \<and> map_of (counters table') k = Some (prior + (pending + a + b))
           \<and> md_setCache s3 = no_MetadataKeys"
proof -
  define delta where "delta = pending + a + b"
  define s1 where "s1 = s\<lparr>md_setCache := (md_setCache s)\<lparr>counters :=
                   AList.update k (pending + a) (counters (md_setCache s))\<rparr>\<rparr>"
  define s2 where "s2 = s1\<lparr>md_setCache := (md_setCache s1)\<lparr>counters :=
                   AList.update k (pending + a + b) (counters (md_setCache s1))\<rparr>\<rparr>"
  have s1: "setIncrement k a s = Some s1"
    unfolding s1_def using assms(2,3,4,6) by (rule setIncrement_exact)
  have p1: "(case map_of (counters (md_setCache s1)) k of None \<Rightarrow> 0 | Some n \<Rightarrow> n) = pending + a"
    by (simp add: s1_def update_conv')
  have s2: "setIncrement k b s1 = Some s2"
    unfolding s2_def using p1 assms(6) assms(5) assms(7) by (rule setIncrement_exact)
  have acc: "map_of (counters (md_setCache s2)) k = Some delta"
    by (simp add: s2_def delta_def update_conv')
  have pend: "map_of (counters (md_setCache s2)) k' = map_of (counters (md_setCache s)) k'"
    if "k' \<noteq> k" for k'
    using that by (simp add: s2_def s1_def update_conv')
  define pending2 where "pending2 = md_setCache s2"
  define t1 where "t1 = bulkCreate_metadata (others pending2) table"
  define add where "add = (\<lambda>t::MetadataKeys. if delta = 0 then t
                  else t\<lparr>counters := AList.update k (prior + delta) (counters t)\<rparr>)"
  have t1: "counters t1 = counters table" by (simp add: t1_def bulkCreate_metadata_def)
  have add_k: "map_of (counters (add t)) k = Some (prior + delta)"
    if "map_of (counters t) k = Some prior" for t
    using that by (simp add: add_def update_conv')
  have add_other: "map_of (counters (add t)) k' = map_of (counters t) k'" if "k' \<noteq> k" for k' t
    using that by (simp add: add_def update_conv')
  have other: "increment_in_range pending2 k' t"
    if "k' \<noteq> k" and "map_of (counters t) k' = map_of (counters table) k'" for k' t
  proof -
    have "k' \<in> set incrementKeys" by (cases k') (simp_all add: incrementKeys_def)
    with assms(10) that(1) have "increment_in_range (md_setCache s) k' table"
      by (auto simp: list_all_iff)
    then show ?thesis
      using increment_in_range_cong[OF pend[OF that(1)] that(2)] by (simp add: pending2_def)
  qed
  have own: "flush_increment pending2 k (Inr t) = Inr (add t)"
    if "map_of (counters t) k = Some prior" for t
    using flush_increment_adds[OF acc that assms(8) _ _] assms(9) assms(7)
    by (simp add: pending2_def add_def delta_def)
  have other_step: "\<exists>t'. flush_increment pending2 k' (Inr t) = Inr t'
                       \<and> map_of (counters t') k = map_of (counters t) k"
    if "k' \<noteq> k" and "map_of (counters t) k' = map_of (counters table) k'" for k' t
    using flush_increment_in_range[OF other[OF that]] that(1) by auto
  have "\<exists>t2. fold (flush_increment pending2) incrementKeys (Inr t1) = Inr t2
          \<and> map_of (counters t2) k = Some (prior + delta)"
  proof (cases k)
    case processedBlockCount
    have row: "map_of (counters t1) k = Some prior" using assms(1) by (simp add: t1)
    have ne: "schemaMigrationCount \<noteq> k" using processedBlockCount by simp
    have "map_of (counters (add t1)) schemaMigrationCount
            = map_of (counters table) schemaMigrationCount"
      using add_other[OF ne] by (simp add: t1)
    from other_step[OF ne this] obtain t2 where
      2: "flush_increment pending2 schemaMigrationCount (Inr (add t1)) = Inr t2"
      and 3: "map_of (counters t2) k = map_of (counters (add t1)) k"
      by blast
    have "fold (flush_increment pending2) incrementKeys (Inr t1) = Inr t2"
      using own[OF row] 2 processedBlockCount by (simp add: incrementKeys_def)
    with 3 add_k[OF row] show ?thesis by simp
  next
    case schemaMigrationCount
    have ne: "processedBlockCount \<noteq> k" using schemaMigrationCount by simp
    have "map_of (counters t1) processedBlockCount = map_of (counters table) processedBlockCount"
      by (simp add: t1)
    from other_step[OF ne this] obtain t where
      1: "flush_increment pending2 processedBlockCount (Inr t1) = Inr t"
      and 2: "map_of (counters t) k = map_of (counters t1) k"
      by blast
    have row: "map_of (counters t) k = Some prior"
      using 2 assms(1) by (simp add: t1)
    have "fold (flush_increment pending2) incrementKeys (Inr t1) = Inr (add t)"
      using 1 own[OF row] schemaMigrationCount by (simp add: incrementKeys_def)
    with add_k[OF row] show ?thesis by simp
  qed
  then obtain t2 where fold: "fold (flush_increment pending2) incrementKeys (Inr t1) = Inr t2"
    and res: "map_of (counters t2) k = Some (prior + delta)"
    by blast
  have fl: "CacheMetadataModel_flush s2 table = (None, CacheMetadataModel_clear s2, t2)"
    using fold by (simp add: CacheMetadataModel_flush_def Let_def pending2_def t1_def)
  have clr: "md_setCache (CacheMetadataModel_clear s2) = no_MetadataKeys"
    by (simp add: CacheMetadataModel_clear_def)
  from s1 s2 acc fl res clr show ?thesis unfolding delta_def by blast
qed

text \<open>
  Witness of C3: increments of 3 and 2 on a fresh model and a stored value of 10 give 15.
\<close>

theorem setIncrement_twice_then_flush_witness:
  "\<exists>s1 s2 s3 table'.
     setIncrement processedBlockCount 3 new_CacheMetadataModel = Some s1
     \<and> setIncrement processedBlockCount 2 s1 = Some s2
     \<and> map_of (counters (md_setCache s2)) processedBlockCount = Some 5
     \<and> CacheMetadataModel_flush s2 \<lparr>counters = [(processedBlockCount, 10)], others = []\<rparr>
         = (None, s3, table')
     \<and> map_of (counters table') processedBlockCount = Some 15"
proof -
  have h1: "map_of (counters \<lparr>counters = [(processedBlockCount, 10)], others = []\<rparr>) processedBlockCount
              = Some 10"
    by simp
  have h2: "(case map_of (counters (md_setCache new_CacheMetadataModel)) processedBlockCount of
               None \<Rightarrow> 0 | Some n \<Rightarrow> n) = 0"
    by (simp add: new_CacheMetadataModel_def no_MetadataKeys_def)
  have h3: "safe_integer 0" "safe_integer 3" "safe_integer 2" "safe_integer (0 + 3)"
    "safe_integer (0 + 3 + 2)"
    by (simp_all add: safe_integer_def)
  have h4: "in_int4 10" "in_int4 (10 + (0 + 3 + 2))"
    by (simp_all add: in_int4_def)
  have h5: "list_all (\<lambda>k'. k' = processedBlockCount
              \<or> increment_in_range (md_setCache new_CacheMetadataModel) k'
                   \<lparr>counters = [(processedBlockCount, 10)], others = []\<rparr>) incrementKeys"
    by (simp add: incrementKeys_def new_CacheMetadataModel_def no_MetadataKeys_def
                  increment_in_range_def)
  show ?thesis
    using setIncrement_twice_then_flush [OF h1 h2 h3 h4 h5] by auto
qed

text \<open>
  Outside those ranges the flush can fail: with the stored value at the top of \<open>int\<close>
  the server-side add is out of range, nothing is stored and the write stays pending.
\<close>

lemma flush_out_of_range:
  "CacheMetadataModel_flush
     \<lparr>md_setCache = \<lparr>counters = [(processedBlockCount, 1)], others = []\<rparr>,
      md_getCache = no_MetadataKeys, md_flushableRecordCounter = 0\<rparr>
     \<lparr>counters = [(processedBlockCount, 2147483647)], others = []\<rparr>
   = (Some IntegerOutOfRange,
      \<lparr>md_setCache = \<lparr>counters = [(processedBlockCount, 1)], others = []\<rparr>,
       md_getCache = no_MetadataKeys, md_flushableRecordCounter = 0\<rparr>,
      \<lparr>counters = [(processedBlockCount, 2147483647)], others = []\<rparr>)"
  by code_simp

section \<open>Properties of the block dispatcher\<close>

text \<open>
  \<open>flushQueue\<close> empties the height queue and the backlog of tasks, and the resumed
  loop discards the fetched batch exactly when the staleness check holds.
\<close>

lemma flushQueue_empties_both:
  "items (queue (flushQueue h s)) = []
   \<and> items (backlog (processQueue (flushQueue h s))) = []
   \<and> latestBufferedHeight (flushQueue h s) = Some h"
  by (simp add: flushQueue_def Queue_flush_def AutoQueue_flush_def)

lemma processQueue_loop_head: "processQueue (loop_head s) = processQueue s"
  by (simp add: loop_head_def loop_exit_def emit_def Let_def split: prod.splits)

lemma stale_batch_discarded:
  "fetchLoop s = AwaitFetch blockNums bufferedHeight \<Longrightarrow> is_stale blockNums bufferedHeight s \<Longrightarrow>
   processQueue (fetch_resolved blocks s) = processQueue s"
  by (simp add: fetch_resolved_def processQueue_loop_head emit_def)

lemma fresh_batch_submitted:
  "fetchLoop s = AwaitFetch blockNums bufferedHeight \<Longrightarrow> \<not> is_stale blockNums bufferedHeight s \<Longrightarrow>
   \<not> isShutdown s \<Longrightarrow> AutoQueue_putMany blocks (processQueue s) = Inr pq \<Longrightarrow>
   processQueue (fetch_resolved blocks s) = pq"
  by (simp add: fetch_resolved_def processQueue_loop_head emit_def)

text \<open>
  \<open>enqueueBlocks\<close> with no heights: a nonzero height only moves the watermark; the
  height \<open>0\<close> takes the general path, which logs, moves the watermark and calls
  \<open>fetchBlocksFromQueue\<close>.
\<close>

lemma enqueueBlocks_watermark_only:
  "h \<noteq> 0 \<Longrightarrow> enqueueBlocks [] (Some h) s = (None, s\<lparr>latestBufferedHeight := Some h\<rparr>)"
  by (simp add: enqueueBlocks_def)

lemma enqueueBlocks_zero_general_path:
  "enqueueBlocks [] (Some 0) s =
     (None, fetchBlocksFromQueue
              ((emit [LogEnqueueing None None 0] s)\<lparr>latestBufferedHeight := Some 0\<rparr>))"
  by (simp add: enqueueBlocks_def Queue_putMany_def first_opt_def last_opt_def emit_def)

text \<open>
  Claim C6, at the input \<open>enqueueBlocks([], 0)\<close> on a new dispatcher with batch size 4:
  the watermark becomes \<open>0\<close> and nothing enters the height queue, but the call also
  logs the enqueueing line and enters the fetch loop, which finds no height and ends.
\<close>

theorem enqueueBlocks_empty_zero_enters_loop:
  "enqueueBlocks [] (Some 0) (new_BlockDispatcher 4 9) =
     (None, (new_BlockDispatcher 4 9)
              \<lparr>latestBufferedHeight := Some 0,
               effects := [LogEnqueueing None None 0, LoopEntered]\<rparr>)"
  by code_simp

text \<open>
  Claim C1, at the run \<open>enqueueBlocks([10, 11])\<close>, \<open>flushQueue(9)\<close>,
  \<open>enqueueBlocks([20, 21])\<close> while the blocks 10 and 11 are being fetched, then the
  fetch resolving and two tasks running. The snapshot \<open>11\<close> does not exceed the
  regrown watermark \<open>21\<close> and the queue head \<open>20\<close> is not below the minimum
  fetched height \<open>10\<close>, so the batch is not discarded: \<open>indexBlock\<close> is called for
  the heights 10 and 11 after the flush, although they were taken before it and are
  not among the new heights.
\<close>

theorem flushed_batch_reaches_indexBlock:
  "effects (run [EnqueueBlocks [10, 11] None, FlushQueue 9, EnqueueBlocks [20, 21] None]
              (new_BlockDispatcher 4 9))
     = [LogEnqueueing (Some 10) (Some 11) 2, LoopEntered, LogFetch 10 11 2,
        CallFetchBlocksBatches [10, 11], LogEnqueueing (Some 20) (Some 21) 2]
   \<and> effects (run [EnqueueBlocks [10, 11] None, FlushQueue 9, EnqueueBlocks [20, 21] None,
                   FetchResolved [10, 11], RunTask, RunTask]
              (new_BlockDispatcher 4 9))
     = [LogEnqueueing (Some 10) (Some 11) 2, LoopEntered, LogFetch 10 11 2,
        CallFetchBlocksBatches [10, 11], LogEnqueueing (Some 20) (Some 21) 2,
        EmitBlockQueueSize 2, LogFetch 20 21 2, CallFetchBlocksBatches [20, 21],
        CallIndexBlock 10, CallIndexBlock 11]"
  by code_simp

end
